theory Spec2Isabelle
  imports Main "HOL-Library.Sublist"
begin

section \<open>Data model of the invitation and notification dispatch engine\<close>

text \<open>
  The persistent rows are the Prisma models the backend reads and writes. Timestamps are
  milliseconds since the epoch (what \<open>Date.now()\<close> and \<open>Date.getTime()\<close> return), kept as
  unbounded integers. JavaScript strings are lists of characters; \<open>undefined\<close> and \<open>null\<close>
  are \<open>None\<close>.
\<close>

datatype deliveryMethod = LINK | EMAIL

text \<open>The enumeration \<open>PrismaEmailStatus\<close> (the outcome kind of an audit record).\<close>

datatype emailLogStatus = SENT | FAILED | DISABLED | RATE_LIMITED

record systemSetting =
  maxEmailsPerHourPerAdmin :: "int option"
  maxEmailsPerDayPerAdmin :: "int option"
  smtpHost :: "string option"
  smtpPort :: "int option"
  smtpUser :: "string option"
  smtpPassword :: "string option"
  smtpUseTls :: "bool option"
  smtpFromAddress :: "string option"
  smtpFromName :: "string option"

record event =
  evt_id :: string
  evt_name :: string
  evt_description :: "string option"
  evt_startsAt :: int
  evt_endsAt :: int
  invitationEmailSubject :: "string option"
  invitationEmailBody :: "string option"
  senderEmail :: "string option"
  senderName :: "string option"

record invitation =
  inv_id :: string
  inv_eventId :: string
  inv_token :: string
  inv_deliveryMethod :: deliveryMethod
  inv_email :: "string option"
  isActive :: bool
  deactivatedAt :: "int option"
  inv_createdAt :: int
  usedAt :: "int option"

record emailLog =
  log_recipient :: string
  log_subject :: string
  log_status :: emailLogStatus
  log_errorMessage :: "string option"
  log_eventId :: "string option"
  log_invitationId :: "string option"
  log_adminId :: "string option"
  log_createdAt :: int

record cache =
  cache_id :: string
  cache_eventId :: string

record cacheFind =
  find_id :: string
  find_cacheId :: string

record player =
  player_id :: string
  player_eventId :: string

text \<open>The durable store: one list of rows per table, and the singleton settings row (id 1).\<close>

record store =
  settingsRow :: "systemSetting option"
  events :: "event list"
  invitations :: "invitation list"
  emailLogs :: "emailLog list"
  caches :: "cache list"
  cacheFinds :: "cacheFind list"
  players :: "player list"

section \<open>JavaScript values\<close>

text \<open>Truthiness of an optional string (\<open>null\<close>, \<open>undefined\<close> and \<open>''\<close> are falsy) and of an
  optional number (\<open>null\<close> and \<open>0\<close> are falsy).\<close>

fun truthy_str :: "string option \<Rightarrow> bool" where
  "truthy_str None = False"
| "truthy_str (Some s) = (s \<noteq> [])"

fun truthy_num :: "int option \<Rightarrow> bool" where
  "truthy_num None = False"
| "truthy_num (Some n) = (n \<noteq> 0)"

text \<open>\<open>a || b\<close> on optional strings.\<close>

definition or_str :: "string option \<Rightarrow> string option \<Rightarrow> string option" where
  "or_str a b = (if truthy_str a then a else b)"

text \<open>Decimal rendering of an integer, as a template literal \<open>`${n}`\<close> prints it.\<close>

fun digits10 :: "nat \<Rightarrow> string" where
  "digits10 n = (if n < 10 then [''0123456789'' ! n]
                 else digits10 (n div 10) @ [''0123456789'' ! (n mod 10)])"

definition show_int :: "int \<Rightarrow> string" where
  "show_int i = (if i < 0 then CHR ''-'' # digits10 (nat (- i)) else digits10 (nat i))"

section \<open>Quota ledger (email.ts)\<close>

text \<open>The process environment: \<open>MAX_EMAILS_PER_HOUR_PER_ADMIN\<close> and
  \<open>MAX_EMAILS_PER_DAY_PER_ADMIN\<close> and \<open>DATA_RETENTION_DAYS\<close> (\<open>None\<close> when unset or empty,
  otherwise the integer the variable holds) and \<open>BASE_URL\<close>.\<close>

record environment =
  env_maxPerHour :: "int option"
  env_maxPerDay :: "int option"
  env_baseUrl :: "string option"
  env_dataRetentionDays :: "int option"

record rateLimitConfig =
  perHour :: int
  perDay :: int

text \<open>\<open>settings?.maxEmailsPerHourPerAdmin ?? Number(process.env.MAX_... || 50)\<close>.\<close>

definition getRateLimitConfig :: "environment \<Rightarrow> systemSetting option \<Rightarrow> rateLimitConfig" where
  "getRateLimitConfig env settings =
     \<lparr> perHour =
         (case Option.bind settings maxEmailsPerHourPerAdmin of
            Some n \<Rightarrow> n
          | None \<Rightarrow> (case env_maxPerHour env of Some n \<Rightarrow> n | None \<Rightarrow> 50)),
       perDay =
         (case Option.bind settings maxEmailsPerDayPerAdmin of
            Some n \<Rightarrow> n
          | None \<Rightarrow> (case env_maxPerDay env of Some n \<Rightarrow> n | None \<Rightarrow> 200)) \<rparr>"

text \<open>\<open>prisma.emailLog.count\<close> with \<open>adminId\<close>, \<open>createdAt >= since\<close> and
  \<open>NOT status = RATE_LIMITED\<close>.\<close>

definition countEmails :: "store \<Rightarrow> string \<Rightarrow> int \<Rightarrow> nat" where
  "countEmails db adminId since =
     length (filter (\<lambda>l. log_adminId l = Some adminId \<and> since \<le> log_createdAt l
                          \<and> log_status l \<noteq> RATE_LIMITED) (emailLogs db))"

record rateResult =
  allowed :: bool
  message :: "string option"

text \<open>
  \<open>checkRateLimit\<close>. The second component of the result lists, in order, the \<open>since\<close>
  bounds of the \<open>countEmails\<close> queries the call has issued, so that which windows were
  evaluated is part of the result.
\<close>

definition checkRateLimit ::
  "environment \<Rightarrow> store \<Rightarrow> int \<Rightarrow> string option \<Rightarrow> systemSetting option \<Rightarrow> rateResult \<times> int list" where
  "checkRateLimit env db now adminId settings =
     (case adminId of
        None \<Rightarrow> (\<lparr>allowed = True, message = None\<rparr>, [])
      | Some a \<Rightarrow>
          if a = [] then (\<lparr>allowed = True, message = None\<rparr>, [])
          else
            let limits = getRateLimitConfig env settings;
                sinceHour = now - 60 * 60 * 1000;
                cntHour = countEmails db a sinceHour
            in if perHour limits > 0 \<and> int cntHour \<ge> perHour limits
               then (\<lparr>allowed = False,
                      message = Some (''Limit erreicht ('' @ show_int (perHour limits) @ '' pro Stunde).'')\<rparr>,
                     [sinceHour])
               else
                 let sinceDay = now - 24 * 60 * 60 * 1000;
                     cntDay = countEmails db a sinceDay
                 in if perDay limits > 0 \<and> int cntDay \<ge> perDay limits
                    then (\<lparr>allowed = False,
                           message = Some (''Limit erreicht ('' @ show_int (perDay limits) @ '' pro Tag).'')\<rparr>,
                          [sinceHour, sinceDay])
                    else (\<lparr>allowed = True, message = None\<rparr>, [sinceHour, sinceDay]))"


section \<open>Template renderer (email.ts)\<close>

text \<open>\<open>String.prototype.includes\<close>: the pattern occurs somewhere in the text (the empty
  pattern always does).\<close>

fun includes_str :: "string \<Rightarrow> string \<Rightarrow> bool" where
  "includes_str [] pat = (pat = [])"
| "includes_str (c # cs) pat = (prefix pat (c # cs) \<or> includes_str cs pat)"

text \<open>The number of positions of the text at which the pattern starts.\<close>

fun occurrences :: "string \<Rightarrow> string \<Rightarrow> nat" where
  "occurrences [] pat = (if pat = [] then 1 else 0)"
| "occurrences (c # cs) pat = (if prefix pat (c # cs) then 1 else 0) + occurrences cs pat"

text \<open>The text before and after the first occurrence of the pattern, if there is one.\<close>

fun split_first :: "string \<Rightarrow> string \<Rightarrow> (string \<times> string) option" where
  "split_first pat [] = (if pat = [] then Some ([], []) else None)"
| "split_first pat (c # cs) =
     (if prefix pat (c # cs) then Some ([], drop (length pat) (c # cs))
      else map_option (\<lambda>(b, a). (c # b, a)) (split_first pat cs))"

text \<open>
  \<open>GetSubstitution\<close> of ECMAScript for a string pattern (no capture groups): in the
  replacement text \<open>$$\<close> stands for a dollar sign, \<open>$&\<close> for the matched text, \<open>$`\<close> for the
  text before the match and \<open>$'\<close> for the text after it; every other character, a dollar
  sign before anything else included, is copied.
\<close>

fun getSubstitution :: "string \<Rightarrow> string \<Rightarrow> string \<Rightarrow> string \<Rightarrow> string" where
  "getSubstitution matched pre post [] = []"
| "getSubstitution matched pre post [c] = [c]"
| "getSubstitution matched pre post (c # d # ds) =
     (if c = CHR ''$'' then
        (if d = CHR ''$'' then CHR ''$'' # getSubstitution matched pre post ds
         else if d = CHR ''&'' then matched @ getSubstitution matched pre post ds
         else if d = CHR 0x60 then pre @ getSubstitution matched pre post ds
         else if d = CHR 0x27 then post @ getSubstitution matched pre post ds
         else c # getSubstitution matched pre post (d # ds))
      else c # getSubstitution matched pre post (d # ds))"

text \<open>\<open>text.replace(pat, replacement)\<close> with a string pattern: the first occurrence only.\<close>

definition js_replace :: "string \<Rightarrow> string \<Rightarrow> string \<Rightarrow> string" where
  "js_replace txt pat replacement =
     (case split_first pat txt of
        None \<Rightarrow> txt
      | Some (pre, post) \<Rightarrow> pre @ getSubstitution pat pre post replacement @ post)"

definition LF :: char where
  "LF = CHR 0x0A"

definition inviteLinkPlaceholder :: string where
  "inviteLinkPlaceholder = ''{{inviteLink}}''"

definition DEFAULT_SUBJECT :: string where
  "DEFAULT_SUBJECT = ''Einladung: {{eventName}}''"

definition DEFAULT_BODY :: string where
  "DEFAULT_BODY =
     ''Du wurdest zu {{eventName}} eingeladen.'' @ [LF, LF] @
     ''Eventstart: {{eventStart}}'' @ [LF] @ ''Eventende: {{eventEnd}}'' @ [LF, LF] @
     ''Einladungslink: {{inviteLink}}''"

record templateContext =
  ctx_eventName :: "string option"
  ctx_eventDescription :: "string option"
  ctx_eventStart :: "string option"
  ctx_eventEnd :: "string option"
  ctx_inviteLink :: "string option"
  ctx_inherited :: "string \<Rightarrow> string option"

text \<open>\<open>context[key] ?? ''\<close>: the own properties of a \<open>TemplateContext\<close> first; any other
  key is looked up on the prototype of the object (\<open>ctx_inherited\<close>: the text that the
  runtime prints for an inherited property such as \<open>constructor\<close>, \<open>None\<close> for a name that
  is not inherited), and a name found nowhere gives the empty string.\<close>

definition contextValue :: "templateContext \<Rightarrow> string \<Rightarrow> string" where
  "contextValue ctx key =
     (let v = (if key = ''eventName'' then ctx_eventName ctx
               else if key = ''eventDescription'' then ctx_eventDescription ctx
               else if key = ''eventStart'' then ctx_eventStart ctx
               else if key = ''eventEnd'' then ctx_eventEnd ctx
               else if key = ''inviteLink'' then ctx_inviteLink ctx
               else ctx_inherited ctx key)
      in case v of None \<Rightarrow> [] | Some s \<Rightarrow> s)"

text \<open>White space that \<open>String.prototype.trim\<close> strips, among the characters of a byte.\<close>

definition is_space :: "char \<Rightarrow> bool" where
  "is_space c = (c \<in> set [CHR 0x20, CHR 0x09, CHR 0x0A, CHR 0x0B, CHR 0x0C, CHR 0x0D, CHR 0xA0])"

definition trim :: "string \<Rightarrow> string" where
  "trim s = rev (dropWhile is_space (rev (dropWhile is_space s)))"

text \<open>
  The lazy group of \<open>/{{(.*?)}}/\<close>: from just after an opening \<open>{{\<close>, the shortest run of
  characters other than line terminators that is followed by \<open>}}\<close>, with the text after the
  closing braces; \<open>None\<close> when a line terminator or the end of the text comes first.
\<close>

fun find_close :: "string \<Rightarrow> string \<Rightarrow> (string \<times> string) option" where
  "find_close acc [] = None"
| "find_close acc (c # cs) =
     (if prefix ''}}'' (c # cs) then Some (rev acc, drop 2 (c # cs))
      else if c = CHR 0x0A \<or> c = CHR 0x0D then None
      else find_close (c # acc) cs)"

lemma find_close_shorter: "find_close acc s = Some (key, rest) \<Longrightarrow> length rest < length s"
proof (induction s arbitrary: acc)
  case Nil
  then show ?case by simp
next
  case (Cons c cs)
  show ?case
  proof (cases "prefix ''}}'' (c # cs)")
    case True
    with Cons.prems show ?thesis by auto
  next
    case False
    with Cons.prems have "find_close (c # acc) cs = Some (key, rest)"
      by (simp split: if_splits)
    then have "length rest < length cs" by (rule Cons.IH)
    then show ?thesis by simp
  qed
qed

text \<open>\<open>renderTemplate\<close>: every match of \<open>/{{(.*?)}}/g\<close>, scanning from the left, is
  replaced by the context's value for the trimmed key.\<close>

function renderTemplate :: "string \<Rightarrow> templateContext \<Rightarrow> string" where
  "renderTemplate [] ctx = []"
| "renderTemplate (c # cs) ctx =
     (if prefix ''{{'' (c # cs) then
        (case find_close [] (drop 2 (c # cs)) of
           Some (key, rest) \<Rightarrow> contextValue ctx (trim key) @ renderTemplate rest ctx
         | None \<Rightarrow> c # renderTemplate cs ctx)
      else c # renderTemplate cs ctx)"
  by pat_completeness auto
termination
proof (relation "measure (\<lambda>(s, ctx). length s)")
  fix c :: char and cs and ctx :: templateContext and x2 x y
  assume "find_close [] (drop 2 (c # cs)) = Some x2" and "(x, y) = x2"
  then have "length y < length (drop 2 (c # cs))"
    using find_close_shorter [of "[]" "drop 2 (c # cs)" x y] by simp
  then show "((y, ctx), c # cs, ctx) \<in> measure (\<lambda>(s, ctx). length s)"
    by simp
qed simp_all

definition ensureInviteLinkPlaceholder :: "string \<Rightarrow> string" where
  "ensureInviteLinkPlaceholder body =
     (if includes_str body inviteLinkPlaceholder then body
      else body @ [LF, LF] @ ''Einladungslink: {{inviteLink}}'')"

definition ensureInviteLink :: "string \<Rightarrow> string \<Rightarrow> string" where
  "ensureInviteLink body link =
     (if includes_str body link then body
      else if includes_str body inviteLinkPlaceholder then js_replace body inviteLinkPlaceholder link
      else body @ [LF, LF] @ link)"


section \<open>Transport, audit log and the surroundings of a request\<close>

record smtpConfig =
  cfg_host :: "string option"
  cfg_port :: "int option"
  cfg_secure :: bool
  cfg_user :: "string option"
  cfg_pass :: "string option"

record mail =
  mail_from :: string
  mail_to :: string
  mail_subject :: string
  mail_text :: string

text \<open>What \<open>createTransport(...).sendMail(...)\<close> does: it resolves, throws an \<open>Error\<close> with a
  message, or throws something else.\<close>

datatype sendOutcome = Delivered | ThrowsError string | ThrowsOther

text \<open>What the database does to the \<open>EmailLog\<close> rows that reference a deleted event or
  invitation. The schema that fixes it is not among the sources, so it is a parameter.\<close>

datatype ref_action = Cascade | SetNull | Restrict

text \<open>
  Everything a request handler takes from outside the store: the clock, the process
  environment, the date formatter of the runtime, the mail transport, whether the insert
  of an audit row succeeds, the random token and the row id the database generates, which
  statements of a multi-statement deletion fail for an external reason (numbered from 0),
  what requests running concurrently commit to the store between the issue of a token
  and the send step, the text the runtime prints for a property that every object
  inherits, and the calendar arithmetic of \<open>Date\<close> in the time zone of the process
  (\<open>daysBefore w t n\<close> is the instant of \<open>d.setDate(d.getDate() - n)\<close> for the date \<open>d\<close> at
  \<open>t\<close>).
\<close>

record world =
  now :: int
  env :: environment
  toISOString :: "int \<Rightarrow> string"
  sendMail :: "smtpConfig \<Rightarrow> mail \<Rightarrow> sendOutcome"
  auditWriteOk :: bool
  randomToken :: string
  newInvitationId :: string
  logRefAction :: ref_action
  stmtFails :: "nat \<Rightarrow> bool"
  concurrent :: "store \<Rightarrow> store"
  inheritedText :: "string \<Rightarrow> string option"
  daysBefore :: "int \<Rightarrow> int \<Rightarrow> int"

definition isEmailSendingEnabled :: "systemSetting option \<Rightarrow> bool" where
  "isEmailSendingEnabled settings =
     (case settings of
        None \<Rightarrow> False
      | Some s \<Rightarrow> truthy_str (smtpHost s) \<and> truthy_num (smtpPort s) \<and> truthy_str (smtpFromAddress s)
                  \<and> truthy_str (smtpUser s) \<and> truthy_str (smtpPassword s))"

text \<open>\<open>a || d\<close> and \<open>a ?? d\<close> with a string default, and the string an optional value prints as.\<close>

definition or_default :: "string option \<Rightarrow> string \<Rightarrow> string" where
  "or_default a d = (case a of Some s \<Rightarrow> (if s = [] then d else s) | None \<Rightarrow> d)"

definition nullish_default :: "string option \<Rightarrow> string \<Rightarrow> string" where
  "nullish_default a d = (case a of Some s \<Rightarrow> s | None \<Rightarrow> d)"

definition str_of :: "string option \<Rightarrow> string" where
  "str_of a = (case a of Some s \<Rightarrow> s | None \<Rightarrow> [])"

text \<open>\<open>logEmail\<close>: the insert of the audit row, whose failure is caught and only printed.\<close>

definition logEmail :: "world \<Rightarrow> store \<Rightarrow> emailLog \<Rightarrow> store" where
  "logEmail w db row =
     (if auditWriteOk w then db\<lparr>emailLogs := emailLogs db @ [row]\<rparr> else db)"

record invitationEmailOptions =
  opt_to :: string
  opt_link :: string
  opt_event :: event
  opt_invitationId :: "string option"
  opt_adminId :: "string option"
  skipRateCheck :: bool

datatype emailStatus = StatusDisabled | StatusSent | StatusError string | StatusRateLimited string

definition unsendable :: string where
  "unsendable = ''E-Mail-Versand nicht m'' @ [CHR 0xF6] @ ''glich''"

text \<open>\<open>sendInvitationEmail\<close>: the result and the store after the call.\<close>

definition sendInvitationEmail :: "world \<Rightarrow> store \<Rightarrow> invitationEmailOptions \<Rightarrow> emailStatus \<times> store" where
  "sendInvitationEmail w db options =
     (let settings = settingsRow db;
          ev = opt_event options;
          fromAddress = or_str (senderEmail ev) (Option.bind settings smtpFromAddress);
          fromName = or_str (senderName ev) (Option.bind settings smtpFromName);
          subjectTemplate = or_default (invitationEmailSubject ev) DEFAULT_SUBJECT;
          bodyTemplate = ensureInviteLinkPlaceholder (or_default (invitationEmailBody ev) DEFAULT_BODY);
          ctx = \<lparr> ctx_eventName = Some (evt_name ev),
                  ctx_eventDescription = evt_description ev,
                  ctx_eventStart = Some (toISOString w (evt_startsAt ev)),
                  ctx_eventEnd = Some (toISOString w (evt_endsAt ev)),
                  ctx_inviteLink = Some (opt_link options),
                  ctx_inherited = inheritedText w \<rparr>;
          subject = renderTemplate subjectTemplate ctx;
          body = renderTemplate bodyTemplate ctx;
          row = \<lparr> log_recipient = opt_to options, log_subject = subject, log_status = SENT,
                  log_errorMessage = None, log_eventId = Some (evt_id ev),
                  log_invitationId = opt_invitationId options, log_adminId = opt_adminId options,
                  log_createdAt = now w \<rparr>
      in
        if \<not> isEmailSendingEnabled settings \<or> \<not> truthy_str fromAddress then
          (StatusDisabled,
           logEmail w db (row\<lparr>log_status := DISABLED,
                              log_errorMessage := Some ''SMTP nicht konfiguriert''\<rparr>))
        else
          let rate = (if skipRateCheck options then \<lparr>allowed = True, message = None\<rparr>
                      else fst (checkRateLimit (env w) db (now w) (opt_adminId options) settings))
          in
            if \<not> allowed rate then
              (StatusRateLimited (nullish_default (message rate) ''Rate-Limit erreicht''),
               logEmail w db (row\<lparr>log_status := RATE_LIMITED, log_errorMessage := message rate\<rparr>))
            else
              (case sendMail w
                      \<lparr> cfg_host = Option.bind settings smtpHost,
                        cfg_port = Option.bind settings smtpPort,
                        cfg_secure = (case Option.bind settings smtpUseTls of Some b \<Rightarrow> b | None \<Rightarrow> False),
                        cfg_user = Option.bind settings smtpUser,
                        cfg_pass = Option.bind settings smtpPassword \<rparr>
                      \<lparr> mail_from = (if truthy_str fromName
                                      then str_of fromName @ '' <'' @ str_of fromAddress @ ''>''
                                      else str_of fromAddress),
                        mail_to = opt_to options, mail_subject = subject, mail_text = body \<rparr>
               of
                 Delivered \<Rightarrow> (StatusSent, logEmail w db row)
               | ThrowsError msg \<Rightarrow>
                   (StatusError msg,
                    logEmail w db (row\<lparr>log_status := FAILED, log_errorMessage := Some msg\<rparr>))
               | ThrowsOther \<Rightarrow>
                   (StatusError unsendable,
                    logEmail w db (row\<lparr>log_status := FAILED, log_errorMessage := Some unsendable\<rparr>))))"

text \<open>\<open>precheckRateLimit\<close> reads the settings row again and checks the quota.\<close>

definition precheckRateLimit :: "world \<Rightarrow> store \<Rightarrow> string option \<Rightarrow> rateResult" where
  "precheckRateLimit w db adminId = fst (checkRateLimit (env w) db (now w) adminId (settingsRow db))"


section \<open>Request handlers (index.ts)\<close>

record invitationPayload =
  body_deliveryMethod :: deliveryMethod
  body_email :: "string option"

text \<open>\<open>mapEventResponse\<close> of an event loaded without its caches and invitations: the row
  with its dates in ISO format.\<close>

record eventView =
  view_event :: event
  view_startsAt :: string
  view_endsAt :: string

definition mapEventResponse :: "world \<Rightarrow> event \<Rightarrow> eventView" where
  "mapEventResponse w ev =
     \<lparr> view_event = ev, view_startsAt = toISOString w (evt_startsAt ev),
       view_endsAt = toISOString w (evt_endsAt ev) \<rparr>"

text \<open>
  The answers of the handlers: a status code with a message, the created invitation with
  its link (201), an updated invitation, a page of audit records, the join view, an empty
  204, and \<open>Unhandled\<close> for an exception that the handler does not catch (which
  \<open>asyncHandler\<close> passes on to the error handler of the framework).
\<close>

datatype reply =
    Message nat string
  | Created invitation string
  | InvitationJson invitation
  | LogsJson "emailLog list"
  | JoinJson eventView string deliveryMethod
  | NoContent
  | Unhandled

definition invalid_msg :: string where
  "invalid_msg = ''Diese Einladung ist nicht mehr g'' @ [CHR 0xFC] @ ''ltig.''"

text \<open>
  What \<open>prisma.invitation.create\<close> stores. Modelled from the spec: the column defaults of
  \<open>prisma/schema.prisma\<close>, which is not among the sources (a new invitation is active, has
  no deactivation or use time, and is created now).
\<close>

definition newInvitation :: "world \<Rightarrow> string \<Rightarrow> invitationPayload \<Rightarrow> invitation" where
  "newInvitation w eventId body =
     \<lparr> inv_id = newInvitationId w, inv_eventId = eventId, inv_token = randomToken w,
       inv_deliveryMethod = body_deliveryMethod body, inv_email = body_email body,
       isActive = True, deactivatedAt = None, inv_createdAt = now w, usedAt = None \<rparr>"

text \<open>Referential action on the audit rows that reference deleted parents: \<open>refs\<close> tells
  which rows do, \<open>unref\<close> clears the reference; \<open>None\<close> when the delete is refused.\<close>

definition apply_log_refs ::
  "ref_action \<Rightarrow> (emailLog \<Rightarrow> bool) \<Rightarrow> (emailLog \<Rightarrow> emailLog) \<Rightarrow> emailLog list \<Rightarrow> emailLog list option" where
  "apply_log_refs ra refs unref ls =
     (case ra of
        Cascade \<Rightarrow> Some (filter (\<lambda>l. \<not> refs l) ls)
      | SetNull \<Rightarrow> Some (map (\<lambda>l. if refs l then unref l else l) ls)
      | Restrict \<Rightarrow> (if list_ex refs ls then None else Some ls))"

text \<open>\<open>prisma.invitation.delete({ where: { id } })\<close>: throws when there is no such row.\<close>

definition invitation_delete :: "ref_action \<Rightarrow> string \<Rightarrow> store \<Rightarrow> store option" where
  "invitation_delete ra iid db =
     (if \<not> list_ex (\<lambda>i. inv_id i = iid) (invitations db) then None
      else case apply_log_refs ra (\<lambda>l. log_invitationId l = Some iid)
                  (\<lambda>l. l\<lparr>log_invitationId := None\<rparr>) (emailLogs db) of
             None \<Rightarrow> None
           | Some ls \<Rightarrow> Some (db\<lparr>invitations := filter (\<lambda>i. inv_id i \<noteq> iid) (invitations db),
                                emailLogs := ls\<rparr>))"

text \<open>
  \<open>POST /api/admin/events/:id/invitations\<close>, from the issue of the token on (the second
  half of the handler): the invitation is created, concurrent requests commit, and an
  \<open>EMAIL\<close> invitation is sent with \<open>skipRateCheck: true\<close>.
\<close>

definition issueAndSend ::
  "world \<Rightarrow> store \<Rightarrow> event \<Rightarrow> string \<Rightarrow> invitationPayload \<Rightarrow> string option \<Rightarrow> reply \<times> store" where
  "issueAndSend w db ev eid body adminId =
     (let invt = newInvitation w eid body in
      if list_ex (\<lambda>i. inv_token i = inv_token invt \<or> inv_id i = inv_id invt) (invitations db)
      then (Unhandled, db)
      else
        let db1 = db\<lparr>invitations := invitations db @ [invt]\<rparr>;
            db2 = concurrent w db1;
            baseUrl = or_default (env_baseUrl (env w)) ''http://localhost:5173'';
            link = baseUrl @ ''/join/'' @ inv_token invt
        in
          if body_deliveryMethod body = EMAIL \<and> truthy_str (body_email body) then
            (case sendInvitationEmail w db2
                    \<lparr> opt_to = str_of (body_email body), opt_link = link, opt_event = ev,
                      opt_invitationId = Some (inv_id invt), opt_adminId = adminId,
                      skipRateCheck = True \<rparr>
             of
               (StatusRateLimited msg, db3) \<Rightarrow>
                 (case invitation_delete (logRefAction w) (inv_id invt) db3 of
                    None \<Rightarrow> (Unhandled, db3)
                  | Some db4 \<Rightarrow> (Message 429 msg, db4))
             | (StatusError msg, db3) \<Rightarrow> (Message 500 msg, db3)
             | (_, db3) \<Rightarrow> (Created invt link, db3))
          else (Created invt link, db2))"

text \<open>\<open>POST /api/admin/events/:id/invitations\<close> for an authenticated operator.\<close>

definition createInvitation ::
  "world \<Rightarrow> store \<Rightarrow> string \<Rightarrow> invitationPayload \<Rightarrow> string option \<Rightarrow> reply \<times> store" where
  "createInvitation w db eid body adminId =
     (case find (\<lambda>e. evt_id e = eid) (events db) of
        None \<Rightarrow> (Message 404 ''Event not found'', db)
      | Some ev \<Rightarrow>
          if body_deliveryMethod body = EMAIL \<and> \<not> truthy_str (body_email body)
          then (Message 400 ''Email is required for email invitations'', db)
          else if body_deliveryMethod body = EMAIL \<and> \<not> isEmailSendingEnabled (settingsRow db)
          then (Message 400 ''E-Mail-Versand ist nicht konfiguriert. Bitte SMTP einrichten.'', db)
          else
            let rate = (if body_deliveryMethod body = EMAIL \<and> truthy_str adminId
                        then precheckRateLimit w db adminId
                        else \<lparr>allowed = True, message = None\<rparr>)
            in
              if \<not> allowed rate then
                (if auditWriteOk w then
                   (Message 429 (nullish_default (message rate) ''Rate-Limit erreicht''),
                    db\<lparr>emailLogs := emailLogs db @
                       [\<lparr> log_recipient = str_of (body_email body),
                          log_subject = or_default (invitationEmailSubject ev) (''Einladung: '' @ evt_name ev),
                          log_status = RATE_LIMITED,
                          log_errorMessage = Some (nullish_default (message rate) ''Rate-Limit erreicht''),
                          log_eventId = Some (evt_id ev), log_invitationId = None,
                          log_adminId = adminId, log_createdAt = now w \<rparr>]\<rparr>)
                 else (Unhandled, db))
              else issueAndSend w db ev eid body adminId)"

text \<open>\<open>PUT /api/admin/events/:eventId/invitations/:invitationId\<close>; the body's \<open>isActive\<close>
  is \<open>None\<close> when it is missing or not a boolean.\<close>

definition setInvitationActive ::
  "world \<Rightarrow> store \<Rightarrow> string \<Rightarrow> string \<Rightarrow> bool option \<Rightarrow> reply \<times> store" where
  "setInvitationActive w db eventId invitationId isActiveReq =
     (case isActiveReq of
        None \<Rightarrow> (Message 400 ''isActive muss gesetzt werden'', db)
      | Some a \<Rightarrow>
          (case find (\<lambda>i. inv_id i = invitationId \<and> inv_eventId i = eventId) (invitations db) of
             None \<Rightarrow> (Message 404 ''Invitation not found'', db)
           | Some invt \<Rightarrow>
               let upd = (\<lambda>i :: invitation. i\<lparr>isActive := a, deactivatedAt := (if a then None else Some (now w))\<rparr>)
               in (InvitationJson (upd invt),
                   db\<lparr>invitations := map (\<lambda>i. if inv_id i = invitationId then upd i else i)
                                          (invitations db)\<rparr>)))"

text \<open>The values of the enumeration, as \<open>Object.values(PrismaEmailStatus)\<close> lists them.\<close>

definition parseStatus :: "string \<Rightarrow> emailLogStatus option" where
  "parseStatus s =
     (if s = ''SENT'' then Some SENT
      else if s = ''FAILED'' then Some FAILED
      else if s = ''DISABLED'' then Some DISABLED
      else if s = ''RATE_LIMITED'' then Some RATE_LIMITED
      else None)"

text \<open>\<open>GET /api/admin/events/:id/email-logs\<close>: the \<open>where\<close> clause gets a status only for
  a non-empty query value that is one of the enumeration; the rows are ordered by creation
  time, newest first, and at most 100 are taken. Rows created at the same time keep their
  stored order here; the database leaves their order open.\<close>

definition listEmailLogs :: "store \<Rightarrow> string \<Rightarrow> string option \<Rightarrow> reply" where
  "listEmailLogs db eid statusQuery =
     (let wanted = (case statusQuery of
                      None \<Rightarrow> None
                    | Some s \<Rightarrow> if s \<noteq> [] then parseStatus s else None);
          rows = filter (\<lambda>l. log_eventId l = Some eid \<and>
                              (case wanted of None \<Rightarrow> True | Some st \<Rightarrow> log_status l = st))
                        (emailLogs db)
      in LogsJson (take 100 (sort_key (\<lambda>l. - log_createdAt l) rows)))"

text \<open>\<open>GET /join/:token\<close>.\<close>

definition joinByToken :: "world \<Rightarrow> store \<Rightarrow> string \<Rightarrow> reply" where
  "joinByToken w db token =
     (case find (\<lambda>i. inv_token i = token) (invitations db) of
        None \<Rightarrow> Message 404 ''Invitation not found''
      | Some invt \<Rightarrow>
          if \<not> isActive invt then Message 400 invalid_msg
          else
            (case find (\<lambda>e. evt_id e = inv_eventId invt) (events db) of
               None \<Rightarrow> Unhandled
             | Some ev \<Rightarrow>
                 if evt_endsAt ev < now w then Message 400 ''Event expired''
                 else JoinJson (mapEventResponse w ev) (inv_token invt) (inv_deliveryMethod invt)))"


section \<open>Deleting events (index.ts and the retention cleanup script)\<close>

text \<open>The delete statements that the two deletion paths issue, each for one event id.\<close>

datatype stmt =
    EmailLogDeleteMany string
  | CacheFindDeleteMany string
  | InvitationDeleteMany string
  | CacheDeleteMany string
  | PlayerDeleteMany string
  | EventDelete string

text \<open>
  The effect of one statement on the store, \<open>None\<close> when it throws. \<open>deleteMany\<close> removes
  the rows its \<open>where\<close> selects; \<open>event.delete\<close> throws when the event does not exist.
  Audit rows that reference a deleted invitation or event are treated as the referential
  action says. Referential restrictions of the other relations, like any other failure of
  the database, are left to \<open>stmtFails\<close>.
\<close>

fun stmt_effect :: "ref_action \<Rightarrow> stmt \<Rightarrow> store \<Rightarrow> store option" where
  "stmt_effect ra (EmailLogDeleteMany eid) db =
     Some (db\<lparr>emailLogs := filter (\<lambda>l. log_eventId l \<noteq> Some eid) (emailLogs db)\<rparr>)"
| "stmt_effect ra (CacheFindDeleteMany eid) db =
     Some (db\<lparr>cacheFinds :=
             filter (\<lambda>f. \<not> list_ex (\<lambda>c. cache_id c = find_cacheId f \<and> cache_eventId c = eid) (caches db))
                    (cacheFinds db)\<rparr>)"
| "stmt_effect ra (InvitationDeleteMany eid) db =
     (let gone = map inv_id (filter (\<lambda>i. inv_eventId i = eid) (invitations db)) in
      case apply_log_refs ra (\<lambda>l. case log_invitationId l of None \<Rightarrow> False | Some x \<Rightarrow> x \<in> set gone)
             (\<lambda>l. l\<lparr>log_invitationId := None\<rparr>) (emailLogs db) of
        None \<Rightarrow> None
      | Some ls \<Rightarrow> Some (db\<lparr>invitations := filter (\<lambda>i. inv_eventId i \<noteq> eid) (invitations db),
                           emailLogs := ls\<rparr>))"
| "stmt_effect ra (CacheDeleteMany eid) db =
     Some (db\<lparr>caches := filter (\<lambda>c. cache_eventId c \<noteq> eid) (caches db)\<rparr>)"
| "stmt_effect ra (PlayerDeleteMany eid) db =
     Some (db\<lparr>players := filter (\<lambda>p. player_eventId p \<noteq> eid) (players db)\<rparr>)"
| "stmt_effect ra (EventDelete eid) db =
     (if \<not> list_ex (\<lambda>e. evt_id e = eid) (events db) then None
      else case apply_log_refs ra (\<lambda>l. log_eventId l = Some eid)
                  (\<lambda>l. l\<lparr>log_eventId := None\<rparr>) (emailLogs db) of
             None \<Rightarrow> None
           | Some ls \<Rightarrow> Some (db\<lparr>events := filter (\<lambda>e. evt_id e \<noteq> eid) (events db),
                                emailLogs := ls\<rparr>))"

definition exec_stmt :: "world \<Rightarrow> nat \<Rightarrow> stmt \<Rightarrow> store \<Rightarrow> store option" where
  "exec_stmt w k st db = (if stmtFails w k then None else stmt_effect (logRefAction w) st db)"

text \<open>\<open>prisma.$transaction([...])\<close>: the statements run in order on the transaction's own
  view; the result is the store to commit, or \<open>None\<close> when one of them throws and
  everything is rolled back.\<close>

fun transaction :: "world \<Rightarrow> nat \<Rightarrow> stmt list \<Rightarrow> store \<Rightarrow> store option" where
  "transaction w k [] db = Some db"
| "transaction w k (st # sts) db =
     (case exec_stmt w k st db of
        None \<Rightarrow> None
      | Some db' \<Rightarrow> transaction w (Suc k) sts db')"

text \<open>Statements awaited one after the other outside a transaction: each commits on its
  own, and the first that throws ends the run. The result is the list of the committed
  states, in order.\<close>

fun autocommit :: "world \<Rightarrow> nat \<Rightarrow> stmt list \<Rightarrow> store \<Rightarrow> store list" where
  "autocommit w k [] db = []"
| "autocommit w k (st # sts) db =
     (case exec_stmt w k st db of
        None \<Rightarrow> []
      | Some db' \<Rightarrow> db' # autocommit w (Suc k) sts db')"

text \<open>\<open>DELETE /api/admin/events/:id\<close>: the answer, the store afterwards, and the states
  that were committed on the way.\<close>

definition deleteEventStmts :: "string \<Rightarrow> stmt list" where
  "deleteEventStmts eid =
     [EmailLogDeleteMany eid, CacheFindDeleteMany eid, InvitationDeleteMany eid,
      CacheDeleteMany eid, PlayerDeleteMany eid, EventDelete eid]"

definition deleteEvent :: "world \<Rightarrow> store \<Rightarrow> string \<Rightarrow> reply \<times> store \<times> store list" where
  "deleteEvent w db eid =
     (case transaction w 0 (deleteEventStmts eid) db of
        None \<Rightarrow> (Unhandled, db, [])
      | Some db' \<Rightarrow> (NoContent, db', [db']))"

text \<open>
  The retention cleanup script, \<open>run\<close>: the events that ended before the cutoff are listed
  first, then four statements are awaited for each of them in turn. The cutoff is
  \<open>DATA_RETENTION_DAYS\<close> (default 30) calendar days before now, by the script's \<open>setDate\<close>
  in the time zone of the process. The result is whether the run completed, the store
  afterwards, and the states that were committed on the way.
\<close>

definition cleanupStmts :: "string \<Rightarrow> stmt list" where
  "cleanupStmts eid =
     [CacheFindDeleteMany eid, InvitationDeleteMany eid, CacheDeleteMany eid, EventDelete eid]"

definition run :: "world \<Rightarrow> store \<Rightarrow> bool \<times> store \<times> store list" where
  "run w db =
     (let retention = (case env_dataRetentionDays (env w) of Some n \<Rightarrow> n | None \<Rightarrow> 30);
          cutoff = daysBefore w (now w) retention;
          expiredEvents = map evt_id (filter (\<lambda>e. evt_endsAt e < cutoff) (events db));
          stmts = concat (map cleanupStmts expiredEvents);
          committed = autocommit w 0 stmts db
      in (length committed = length stmts, last (db # committed), committed))"


section \<open>Drivers and sample data\<close>

text \<open>An invitation is well formed when it has a deactivation time exactly if it is
  inactive.\<close>

definition inv_ok :: "invitation \<Rightarrow> bool" where
  "inv_ok i = (deactivatedAt i \<noteq> None \<longleftrightarrow> \<not> isActive i)"

text \<open>A sequence of \<open>SetInvitationActive\<close> requests, each with its own clock: the store after
  the last of them.\<close>

fun setActiveSeq :: "store \<Rightarrow> (world \<times> string \<times> string \<times> bool option) list \<Rightarrow> store" where
  "setActiveSeq db [] = db"
| "setActiveSeq db ((w, eventId, invitationId, a) # ops) =
     setActiveSeq (snd (setInvitationActive w db eventId invitationId a)) ops"

text \<open>The audit outcome that goes with a result of \<open>sendInvitationEmail\<close>.\<close>

fun status_of :: "emailStatus \<Rightarrow> emailLogStatus" where
  "status_of StatusDisabled = DISABLED"
| "status_of StatusSent = SENT"
| "status_of (StatusError m) = FAILED"
| "status_of (StatusRateLimited m) = RATE_LIMITED"

text \<open>A deployment with a configured mailbox and ceilings of 2 per hour and 10 per day,
  one event, and an operator \<open>adminA\<close>.\<close>

definition ex_settings :: systemSetting where
  "ex_settings =
     \<lparr> maxEmailsPerHourPerAdmin = Some 2, maxEmailsPerDayPerAdmin = Some 10,
       smtpHost = Some ''smtp.example.org'', smtpPort = Some 587, smtpUser = Some ''mailer'',
       smtpPassword = Some ''secret'', smtpUseTls = Some True,
       smtpFromAddress = Some ''noreply@example.org'', smtpFromName = None \<rparr>"

definition ex_event :: event where
  "ex_event =
     \<lparr> evt_id = ''e1'', evt_name = ''Hunt'', evt_description = None,
       evt_startsAt = 5000000, evt_endsAt = 20000000,
       invitationEmailSubject = None, invitationEmailBody = None,
       senderEmail = None, senderName = None \<rparr>"

definition ex_env :: environment where
  "ex_env = \<lparr> env_maxPerHour = None, env_maxPerDay = None, env_baseUrl = None,
              env_dataRetentionDays = Some 1 \<rparr>"

definition ex_log :: "emailLogStatus \<Rightarrow> int \<Rightarrow> emailLog" where
  "ex_log st t =
     \<lparr> log_recipient = ''p@example.org'', log_subject = ''Einladung: Hunt'', log_status = st,
       log_errorMessage = None, log_eventId = Some ''e1'', log_invitationId = Some ''i1'',
       log_adminId = Some ''adminA'', log_createdAt = t \<rparr>"

definition ex_invitation :: invitation where
  "ex_invitation =
     \<lparr> inv_id = ''i1'', inv_eventId = ''e1'', inv_token = ''c0ffee'',
       inv_deliveryMethod = EMAIL, inv_email = Some ''p@example.org'',
       isActive = True, deactivatedAt = None, inv_createdAt = 6000000, usedAt = None \<rparr>"

definition ex_db :: store where
  "ex_db =
     \<lparr> settingsRow = Some ex_settings, events = [ex_event], invitations = [],
       emailLogs = [], caches = [], cacheFinds = [], players = [] \<rparr>"

definition ex_world :: world where
  "ex_world =
     \<lparr> now = 10000000, env = ex_env, toISOString = (\<lambda>t. show_int t),
       sendMail = (\<lambda>cfg m. Delivered), auditWriteOk = True,
       randomToken = ''5f2a9c'', newInvitationId = ''i2'', logRefAction = SetNull,
       stmtFails = (\<lambda>k. False), concurrent = (\<lambda>db. db),
       inheritedText = (\<lambda>k. if k = ''constructor'' then Some ''function Object() { [native code] }''
                             else None),
       daysBefore = (\<lambda>t n. t - n * (24 * 60 * 60 * 1000)) \<rparr>"

definition ex_payload :: invitationPayload where
  "ex_payload = \<lparr> body_deliveryMethod = EMAIL, body_email = Some ''q@example.org'' \<rparr>"


definition ex_options :: invitationEmailOptions where
  "ex_options =
     \<lparr> opt_to = ''q@example.org'', opt_link = ''http://localhost:5173/join/5f2a9c'',
       opt_event = ex_event, opt_invitationId = Some ''i2'', opt_adminId = Some ''adminA'',
       skipRateCheck = True \<rparr>"


definition ex_db2 :: store where
  "ex_db2 = ex_db\<lparr>emailLogs := [ex_log SENT 9000000, ex_log SENT 9500000]\<rparr>"

definition ex_denied_row :: emailLog where
  "ex_denied_row =
     \<lparr> log_recipient = ''q@example.org'', log_subject = ''Einladung: Hunt'',
       log_status = RATE_LIMITED, log_errorMessage = Some ''Limit erreicht (2 pro Stunde).'',
       log_eventId = Some ''e1'', log_invitationId = None, log_adminId = Some ''adminA'',
       log_createdAt = 10000000 \<rparr>"

definition ex_db3 :: store where
  "ex_db3 = ex_db\<lparr>invitations := [ex_invitation\<lparr>isActive := False, deactivatedAt := Some 7000000\<rparr>]\<rparr>"

definition ex_db4 :: store where
  "ex_db4 = ex_db\<lparr>invitations := [ex_invitation]\<rparr>"

text \<open>The \<open>where\<close> clause of the audit listing: the status that a query value selects, and
  the rows that an event id and a selected status match.\<close>

definition matching :: "store \<Rightarrow> string \<Rightarrow> emailLogStatus option \<Rightarrow> emailLog list" where
  "matching db eid wanted =
     filter (\<lambda>l. log_eventId l = Some eid \<and> (case wanted of None \<Rightarrow> True | Some st \<Rightarrow> log_status l = st))
       (emailLogs db)"

definition wantedStatus :: "string option \<Rightarrow> emailLogStatus option" where
  "wantedStatus q = (case q of None \<Rightarrow> None | Some s \<Rightarrow> if s \<noteq> [] then parseStatus s else None)"

text \<open>
  Names for the parts of a run of the dispatch route: the store when the send step starts
  (the invitation created, then what concurrent requests have committed), the join link, the
  options the route passes to \<open>sendInvitationEmail\<close>, and whether the token and the row id
  are new.
\<close>

definition issued :: "world \<Rightarrow> store \<Rightarrow> string \<Rightarrow> invitationPayload \<Rightarrow> store" where
  "issued w db eid body = concurrent w (db\<lparr>invitations := invitations db @ [newInvitation w eid body]\<rparr>)"

definition joinLink :: "world \<Rightarrow> string" where
  "joinLink w = or_default (env_baseUrl (env w)) ''http://localhost:5173'' @ ''/join/'' @ randomToken w"

definition routeOptions :: "world \<Rightarrow> event \<Rightarrow> invitationPayload \<Rightarrow> string option \<Rightarrow> invitationEmailOptions" where
  "routeOptions w ev body adminId =
     \<lparr> opt_to = str_of (body_email body), opt_link = joinLink w, opt_event = ev,
       opt_invitationId = Some (newInvitationId w), opt_adminId = adminId, skipRateCheck = True \<rparr>"

definition tokenFresh :: "world \<Rightarrow> store \<Rightarrow> bool" where
  "tokenFresh w db = (\<not> list_ex (\<lambda>i. inv_token i = randomToken w \<or> inv_id i = newInvitationId w) (invitations db))"

text \<open>Further sample data: a world in which two mails of the operator are recorded while
  the request is between the quota gate and the send step, one in which the insert of audit rows
  fails, one in which the transport refuses the mail; the invitation and the audit row that
  the sample request creates.\<close>

definition ex_world_busy :: world where
  "ex_world_busy =
     ex_world\<lparr>concurrent := (\<lambda>db. db\<lparr>emailLogs := emailLogs db @ [ex_log SENT 9000000, ex_log SENT 9500000]\<rparr>)\<rparr>"

definition ex_world_nolog :: world where
  "ex_world_nolog = ex_world\<lparr>auditWriteOk := False\<rparr>"

definition ex_world_refused :: world where
  "ex_world_refused = ex_world\<lparr>sendMail := (\<lambda>cfg m. ThrowsError ''connection refused'')\<rparr>"

definition ex_new_invitation :: invitation where
  "ex_new_invitation =
     \<lparr> inv_id = ''i2'', inv_eventId = ''e1'', inv_token = ''5f2a9c'',
       inv_deliveryMethod = EMAIL, inv_email = Some ''q@example.org'',
       isActive = True, deactivatedAt = None, inv_createdAt = 10000000, usedAt = None \<rparr>"

definition ex_sent_row :: emailLog where
  "ex_sent_row =
     \<lparr> log_recipient = ''q@example.org'', log_subject = ''Einladung: Hunt'', log_status = SENT,
       log_errorMessage = None, log_eventId = Some ''e1'', log_invitationId = Some ''i2'',
       log_adminId = Some ''adminA'', log_createdAt = 10000000 \<rparr>"

definition ex_db_issued :: store where
  "ex_db_issued = ex_db\<lparr>invitations := [ex_new_invitation]\<rparr>"

definition ex_db_busy :: store where
  "ex_db_busy = ex_db_issued\<lparr>emailLogs := [ex_log SENT 9000000, ex_log SENT 9500000]\<rparr>"

text \<open>An event that ended long ago, with a cache, a find, an invitation, a player and an
  audit record; a clock late enough for the cleanup to pick the event; and the store that
  is left when the cleanup stops after its second statement.\<close>

definition ex_db_old :: store where
  "ex_db_old =
     \<lparr> settingsRow = Some ex_settings, events = [ex_event], invitations = [ex_invitation],
       emailLogs = [ex_log SENT 9000000],
       caches = [\<lparr>cache_id = ''c1'', cache_eventId = ''e1''\<rparr>],
       cacheFinds = [\<lparr>find_id = ''f1'', find_cacheId = ''c1''\<rparr>],
       players = [\<lparr>player_id = ''p1'', player_eventId = ''e1''\<rparr>] \<rparr>"

definition ex_world_late :: "ref_action \<Rightarrow> (nat \<Rightarrow> bool) \<Rightarrow> world" where
  "ex_world_late ra fails = ex_world\<lparr>now := 200000000, logRefAction := ra, stmtFails := fails\<rparr>"

definition ex_db_partial :: store where
  "ex_db_partial =
     ex_db_old\<lparr>cacheFinds := [], invitations := [],
               emailLogs := [(ex_log SENT 9000000)\<lparr>log_invitationId := None\<rparr>]\<rparr>"

text \<open>One store narrows another when its invitations and events are among those of the
  other and each of its audit rows refers to what a row of the other refers to, or to
  nothing.\<close>

definition narrows :: "store \<Rightarrow> store \<Rightarrow> bool" where
  "narrows db db' \<longleftrightarrow>
     set (invitations db') \<subseteq> set (invitations db) \<and> set (events db') \<subseteq> set (events db) \<and>
     (\<forall>l'\<in>set (emailLogs db'). \<exists>l\<in>set (emailLogs db).
         (log_eventId l' = log_eventId l \<or> log_eventId l' = None) \<and>
         (log_invitationId l' = log_invitationId l \<or> log_invitationId l' = None))"

text \<open>Settings without ceilings and with a daily ceiling only; a request without a
  recipient and a request for a plain link, with the invitation the latter creates.\<close>

definition ex_unlimited :: systemSetting where
  "ex_unlimited = ex_settings\<lparr>maxEmailsPerHourPerAdmin := Some 0, maxEmailsPerDayPerAdmin := Some 0\<rparr>"

definition ex_daily :: systemSetting where
  "ex_daily = ex_settings\<lparr>maxEmailsPerHourPerAdmin := Some 0, maxEmailsPerDayPerAdmin := Some 2\<rparr>"

definition ex_payload_noemail :: invitationPayload where
  "ex_payload_noemail = \<lparr> body_deliveryMethod = EMAIL, body_email = None \<rparr>"

definition ex_payload_link :: invitationPayload where
  "ex_payload_link = \<lparr> body_deliveryMethod = LINK, body_email = None \<rparr>"

definition ex_link_invitation :: invitation where
  "ex_link_invitation = ex_new_invitation\<lparr>inv_deliveryMethod := LINK, inv_email := None\<rparr>"

text \<open>
  The invitation route reaches the quota gate and the gate refuses: the event exists, the
  request asks for an \<open>EMAIL\<close> invitation with an address, sending is configured, the
  operator is known and \<open>precheckRateLimit\<close> does not allow the mail. The route then
  inserts the \<open>RATE_LIMITED\<close> row itself, with \<open>prisma.emailLog.create\<close>.
\<close>

definition gateDenies :: "world \<Rightarrow> store \<Rightarrow> string \<Rightarrow> invitationPayload \<Rightarrow> string option \<Rightarrow> bool" where
  "gateDenies w db eid body adminId =
     (find (\<lambda>e. evt_id e = eid) (events db) \<noteq> None \<and>
      body_deliveryMethod body = EMAIL \<and> truthy_str (body_email body) \<and>
      isEmailSendingEnabled (settingsRow db) \<and> truthy_str adminId \<and>
      \<not> allowed (precheckRateLimit w db adminId))"


section \<open>Evaluating the sample data\<close>

lemmas ex_defs = ex_world_def ex_db_def ex_event_def ex_payload_def ex_settings_def ex_env_def
  ex_log_def ex_new_invitation_def ex_sent_row_def ex_db_issued_def ex_db_busy_def
  ex_world_busy_def ex_world_nolog_def ex_world_refused_def

lemmas route_defs = createInvitation_def issueAndSend_def sendInvitationEmail_def Let_def
  isEmailSendingEnabled_def precheckRateLimit_def checkRateLimit_def getRateLimitConfig_def
  countEmails_def newInvitation_def logEmail_def or_str_def or_default_def str_of_def
  nullish_default_def show_int_def

lemma ex_subject: "renderTemplate DEFAULT_SUBJECT
     \<lparr> ctx_eventName = Some ''Hunt'', ctx_eventDescription = None, ctx_eventStart = Some s,
       ctx_eventEnd = Some e, ctx_inviteLink = Some l, ctx_inherited = h \<rparr> = ''Einladung: Hunt''"
  by (simp add: DEFAULT_SUBJECT_def contextValue_def trim_def is_space_def)

text \<open>A key that is no property of the context itself is looked up on its prototype.\<close>

lemma ex_inherited_key: "renderTemplate ''{{ constructor }}{{nothing}}''
     \<lparr> ctx_eventName = Some ''Hunt'', ctx_eventDescription = None, ctx_eventStart = Some s,
       ctx_eventEnd = Some e, ctx_inviteLink = Some l, ctx_inherited = inheritedText ex_world \<rparr>
     = ''function Object() { [native code] }''"
  by (simp add: contextValue_def trim_def is_space_def ex_world_def)


lemma ex_run_noemail:
  "createInvitation ex_world ex_db ''e1'' ex_payload_noemail (Some ''adminA'') =
     (Message 400 ''Email is required for email invitations'', ex_db)"
  by (simp add: createInvitation_def ex_payload_noemail_def ex_db_def ex_event_def)

lemma ex_run_link:
  "createInvitation ex_world ex_db ''e1'' ex_payload_link (Some ''adminA'') =
     (Created ex_link_invitation ''http://localhost:5173/join/5f2a9c'',
      ex_db\<lparr>invitations := [ex_link_invitation]\<rparr>)"
  by (simp add: ex_defs route_defs ex_payload_link_def ex_link_invitation_def)

section \<open>The quota check\<close>

lemma hour_day_msg_neq:
  "''Limit erreicht ('' @ x @ '' pro Stunde).'' \<noteq> ''Limit erreicht ('' @ y @ '' pro Tag).''"
proof
  assume "''Limit erreicht ('' @ x @ '' pro Stunde).'' = ''Limit erreicht ('' @ y @ '' pro Tag).''"
  then have "rev (''Limit erreicht ('' @ x @ '' pro Stunde).'') = rev (''Limit erreicht ('' @ y @ '' pro Tag).'')"
    by (rule arg_cong)
  then show False by simp
qed

text \<open>
  Claim C1. For an operator \<open>a\<close> and a call time \<open>t\<close>, with the ceilings \<open>lim\<close> that the
  configuration gives at the call: the check answers with the denial that names the hourly
  ceiling exactly if that ceiling is positive and the count of the operator's audit records
  of the last hour that are not \<open>RATE_LIMITED\<close> has reached it, and then the only window it
  has counted is the hourly one; otherwise it answers with the denial that names the daily
  ceiling exactly if that ceiling is positive and the count of the last 24 hours has reached
  it; otherwise it allows. A ceiling of 0 never denies.
\<close>

theorem checkRateLimit_windows:
  assumes "a \<noteq> []"
  shows "(let lim = getRateLimitConfig e settings;
      sinceHour = t - 60 * 60 * 1000;
      sinceDay = t - 24 * 60 * 60 * 1000;
      hourHit = (0 < perHour lim \<and> perHour lim \<le> int (countEmails db a sinceHour));
      dayHit = (0 < perDay lim \<and> perDay lim \<le> int (countEmails db a sinceDay));
      denyHour = \<lparr>allowed = False,
                  message = Some (''Limit erreicht ('' @ show_int (perHour lim) @ '' pro Stunde).'')\<rparr>;
      denyDay = \<lparr>allowed = False,
                 message = Some (''Limit erreicht ('' @ show_int (perDay lim) @ '' pro Tag).'')\<rparr>;
      allow = \<lparr>allowed = True, message = None\<rparr>;
      r = checkRateLimit e db t (Some a) settings
  in (fst r = denyHour \<longleftrightarrow> hourHit) \<and>
     (hourHit \<longrightarrow> snd r = [sinceHour]) \<and>
     (fst r = denyDay \<longleftrightarrow> \<not> hourHit \<and> dayHit) \<and>
     (fst r = allow \<longleftrightarrow> \<not> hourHit \<and> \<not> dayHit) \<and>
     (\<not> hourHit \<longrightarrow> snd r = [sinceHour, sinceDay]) \<and>
     (perHour lim = 0 \<longrightarrow> fst r \<noteq> denyHour) \<and>
     (perDay lim = 0 \<longrightarrow> fst r \<noteq> denyDay) \<and>
     (perHour lim = 0 \<and> perDay lim = 0 \<longrightarrow> fst r = allow))"
  using assms hour_day_msg_neq [of "show_int (perHour (getRateLimitConfig e settings))"
      "show_int (perDay (getRateLimitConfig e settings))"]
  unfolding checkRateLimit_def Let_def
  by (auto simp del: append.simps)

text \<open>Two \<open>SENT\<close> records of the operator in the last hour: with ceilings of 2 per hour
  and 10 per day the check denies, names the 2 per hour, and has counted the hourly window
  only; with no hourly ceiling and 2 per day it denies and names the 2 per day; with both
  ceilings 0 it allows.\<close>

theorem checkRateLimit_windows_witness:
  "''adminA'' \<noteq> [] \<and>
   checkRateLimit ex_env ex_db2 10000000 (Some ''adminA'') (Some ex_settings)
     = (\<lparr>allowed = False, message = Some ''Limit erreicht (2 pro Stunde).''\<rparr>, [6400000]) \<and>
   checkRateLimit ex_env ex_db2 10000000 (Some ''adminA'') (Some ex_daily)
     = (\<lparr>allowed = False, message = Some ''Limit erreicht (2 pro Tag).''\<rparr>, [6400000, -76400000]) \<and>
   checkRateLimit ex_env ex_db2 10000000 (Some ''adminA'') (Some ex_unlimited)
     = (\<lparr>allowed = True, message = None\<rparr>, [6400000, -76400000])"
  using checkRateLimit_windows [of "''adminA''" ex_env "Some ex_settings" 10000000 ex_db2]
    checkRateLimit_windows [of "''adminA''" ex_env "Some ex_daily" 10000000 ex_db2]
    checkRateLimit_windows [of "''adminA''" ex_env "Some ex_unlimited" 10000000 ex_db2]
  by (simp add: Let_def getRateLimitConfig_def countEmails_def ex_settings_def ex_db_def ex_db2_def
        ex_log_def ex_env_def show_int_def ex_daily_def ex_unlimited_def prod_eq_iff)

section \<open>The send step and its audit record\<close>

text \<open>Every call of \<open>sendInvitationEmail\<close> hands exactly one row to \<open>logEmail\<close>; the row
  carries the outcome that the call returns and the references it was given.\<close>

lemma send_result_cases:
  "\<exists>row. snd (sendInvitationEmail w db opts) = logEmail w db row \<and>
         log_status row = status_of (fst (sendInvitationEmail w db opts)) \<and>
         log_eventId row = Some (evt_id (opt_event opts)) \<and>
         log_invitationId row = opt_invitationId opts \<and>
         log_adminId row = opt_adminId opts \<and>
         log_recipient row = opt_to opts"
proof (cases "\<not> isEmailSendingEnabled (settingsRow db) \<or>
              \<not> truthy_str (or_str (senderEmail (opt_event opts)) (Option.bind (settingsRow db) smtpFromAddress))")
  case True
  then show ?thesis
    unfolding sendInvitationEmail_def Let_def
    by (simp only: if_True fst_conv snd_conv) (rule exI, rule conjI, rule refl, simp)
next
  case off: False
  show ?thesis
  proof (cases "skipRateCheck opts \<or>
                allowed (fst (checkRateLimit (env w) db (now w) (opt_adminId opts) (settingsRow db)))")
    case False
    with off show ?thesis
      unfolding sendInvitationEmail_def Let_def
      by (simp only: if_False if_True fst_conv snd_conv de_Morgan_disj simp_thms)
         (rule exI, rule conjI, rule refl, simp)
  next
    case True
    with off show ?thesis
      unfolding sendInvitationEmail_def Let_def
      by (auto split: sendOutcome.split)
  qed
qed

lemma send_skip_not_rate_limited:
  "skipRateCheck opts \<Longrightarrow> fst (sendInvitationEmail w db opts) \<noteq> StatusRateLimited m"
  unfolding sendInvitationEmail_def Let_def
  by (simp split: sendOutcome.split)

lemma send_fst_audit_irrelevant:
  "fst (sendInvitationEmail (w\<lparr>auditWriteOk := b\<rparr>) db opts) = fst (sendInvitationEmail w db opts)"
  unfolding sendInvitationEmail_def Let_def
  by (simp split: sendOutcome.split)

lemma ex_send_sent:
  "fst (sendInvitationEmail (ex_world\<lparr>auditWriteOk := True\<rparr>) ex_db ex_options) = StatusSent"
  by (simp add: sendInvitationEmail_def Let_def ex_world_def ex_db_def ex_options_def ex_settings_def
       isEmailSendingEnabled_def or_str_def ex_event_def)

section \<open>The dispatch route and the quota\<close>

text \<open>The send step of the route never answers \<open>rate_limited\<close>, so a 429 of the route comes
  from the quota gate before the token is issued, with one \<open>RATE_LIMITED\<close> record and no
  invitation.\<close>

lemma issueAndSend_not_429:
  "fst (issueAndSend w db ev eid body adm) \<noteq> Message 429 m"
proof -
  let ?opts = "\<lparr> opt_to = str_of (body_email body),
      opt_link = or_default (env_baseUrl (env w)) ''http://localhost:5173'' @ ''/join/'' @ inv_token (newInvitation w eid body),
      opt_event = ev, opt_invitationId = Some (inv_id (newInvitation w eid body)), opt_adminId = adm,
      skipRateCheck = True \<rparr>"
  let ?db2 = "concurrent w (db\<lparr>invitations := invitations db @ [newInvitation w eid body]\<rparr>)"
  have "fst (sendInvitationEmail w ?db2 ?opts) \<noteq> StatusRateLimited m'" for m'
    by (rule send_skip_not_rate_limited) simp
  then show ?thesis
    unfolding issueAndSend_def Let_def
    by (cases "sendInvitationEmail w ?db2 ?opts") (auto split: emailStatus.splits)
qed


lemma createInvitation_429:
  assumes "createInvitation w db eid body adm = (Message 429 m, db')"
  shows "\<exists>row. db' = db\<lparr>emailLogs := emailLogs db @ [row]\<rparr> \<and> log_status row = RATE_LIMITED \<and>
           log_errorMessage row = Some m \<and> log_invitationId row = None \<and> log_adminId row = adm \<and>
           log_eventId row = Some eid"
proof (cases "find (\<lambda>e. evt_id e = eid) (events db)")
  case None
  with assms show ?thesis by (simp add: createInvitation_def)
next
  case (Some ev)
  then have eid: "evt_id ev = eid"
    by (auto simp: find_Some_iff)
  have no: "issueAndSend w db ev eid body adm \<noteq> (Message 429 m, db')"
    using issueAndSend_not_429 [of w db ev eid body adm m] by (metis fst_conv)
  from assms Some no eid show ?thesis
    unfolding createInvitation_def Let_def
    by (auto split: if_splits)
qed





lemma ex_db2_denied:
  "createInvitation ex_world ex_db2 ''e1'' ex_payload (Some ''adminA'') =
     (Message 429 ''Limit erreicht (2 pro Stunde).'',
      ex_db2\<lparr>emailLogs := emailLogs ex_db2 @ [ex_denied_row]\<rparr>)"
  by (simp add: ex_denied_row_def createInvitation_def Let_def ex_world_def ex_db2_def ex_db_def ex_event_def
        ex_payload_def ex_settings_def isEmailSendingEnabled_def precheckRateLimit_def
        checkRateLimit_def getRateLimitConfig_def countEmails_def ex_log_def ex_env_def
        show_int_def nullish_default_def or_default_def str_of_def)




section \<open>Join resolution\<close>

text \<open>
  Claim C7. Resolving a token answers 404 \<open>Invitation not found\<close> when no invitation has
  the token; the neutral 400 with the message \<open>invalid_msg\<close> (the invitation is no longer valid)
  when the invitation is inactive, whatever the state of its event (the check comes before the expiry check
  and the answer does not say why); 400 \<open>Event expired\<close> when the invitation is active and
  the end of its event lies before now; and otherwise the event view with the token and
  the delivery method of the invitation.
\<close>

theorem joinByToken_resolution:
  "((\<forall>i\<in>set (invitations db). inv_token i \<noteq> token) \<longrightarrow>
      joinByToken w db token = Message 404 ''Invitation not found'') \<and>
   (\<forall>i. find (\<lambda>i. inv_token i = token) (invitations db) = Some i \<and> \<not> isActive i \<longrightarrow>
      joinByToken w db token = Message 400 invalid_msg) \<and>
   (\<forall>i ev. find (\<lambda>i. inv_token i = token) (invitations db) = Some i \<and> isActive i \<and>
       find (\<lambda>e. evt_id e = inv_eventId i) (events db) = Some ev \<and> evt_endsAt ev < now w \<longrightarrow>
      joinByToken w db token = Message 400 ''Event expired'') \<and>
   (\<forall>i ev. find (\<lambda>i. inv_token i = token) (invitations db) = Some i \<and> isActive i \<and>
       find (\<lambda>e. evt_id e = inv_eventId i) (events db) = Some ev \<and> \<not> evt_endsAt ev < now w \<longrightarrow>
      joinByToken w db token = JoinJson (mapEventResponse w ev) (inv_token i) (inv_deliveryMethod i)) \<and>
   invalid_msg \<noteq> ''Invitation not found'' \<and> invalid_msg \<noteq> ''Event expired''"
proof (intro conjI allI impI)
  assume "\<forall>i\<in>set (invitations db). inv_token i \<noteq> token"
  then have "find (\<lambda>i. inv_token i = token) (invitations db) = None"
    by (simp add: find_None_iff)
  then show "joinByToken w db token = Message 404 ''Invitation not found''"
    by (simp add: joinByToken_def)
qed (simp_all add: joinByToken_def invalid_msg_def)

text \<open>An unknown token, a deactivated invitation of an event that has also ended, an
  active invitation of an ended event, and an active invitation of a running event.\<close>

theorem joinByToken_resolution_witness:
  "invitations ex_db = [] \<and>
   joinByToken ex_world ex_db ''c0ffee'' = Message 404 ''Invitation not found'' \<and>
   joinByToken (ex_world\<lparr>now := 30000000\<rparr>) ex_db3 ''c0ffee'' = Message 400 invalid_msg \<and>
   joinByToken (ex_world\<lparr>now := 30000000\<rparr>) (ex_db\<lparr>invitations := [ex_invitation]\<rparr>) ''c0ffee''
     = Message 400 ''Event expired'' \<and>
   joinByToken ex_world (ex_db\<lparr>invitations := [ex_invitation]\<rparr>) ''c0ffee''
     = JoinJson (mapEventResponse ex_world ex_event) ''c0ffee'' EMAIL"
  using joinByToken_resolution [of ex_db "''c0ffee''" ex_world]
    joinByToken_resolution [of ex_db3 "''c0ffee''" "ex_world\<lparr>now := 30000000\<rparr>"]
    joinByToken_resolution [of "ex_db\<lparr>invitations := [ex_invitation]\<rparr>" "''c0ffee''" "ex_world\<lparr>now := 30000000\<rparr>"]
    joinByToken_resolution [of "ex_db\<lparr>invitations := [ex_invitation]\<rparr>" "''c0ffee''" ex_world]
  by (simp add: ex_db_def ex_db3_def ex_invitation_def ex_event_def ex_world_def)


section \<open>Activating and deactivating invitations\<close>

lemma setInvitationActive_store:
  "snd (setInvitationActive w db e iid a) = db \<or>
   (\<exists>b. a = Some b \<and> snd (setInvitationActive w db e iid a) =
      db\<lparr>invitations := map (\<lambda>i. if inv_id i = iid
                                    then i\<lparr>isActive := b, deactivatedAt := (if b then None else Some (now w))\<rparr>
                                    else i) (invitations db)\<rparr>)"
proof (cases a)
  case None
  then show ?thesis by (simp add: setInvitationActive_def)
next
  case (Some b)
  show ?thesis
  proof (cases "find (\<lambda>i. inv_id i = iid \<and> inv_eventId i = e) (invitations db)")
    case None
    with Some show ?thesis by (simp add: setInvitationActive_def)
  next
    case (Some x)
    with \<open>a = Some b\<close> show ?thesis by (simp add: setInvitationActive_def Let_def)
  qed
qed

lemma toggled_keys:
  "map (\<lambda>i. (inv_id i, inv_eventId i))
     (map (\<lambda>i. if inv_id i = iid then i\<lparr>isActive := b, deactivatedAt := d\<rparr> else i) xs)
   = map (\<lambda>i. (inv_id i, inv_eventId i)) xs"
  by (induction xs) simp_all

lemma toggled_inv_ok:
  "\<forall>i\<in>set xs. inv_ok i \<Longrightarrow>
   \<forall>i\<in>set (map (\<lambda>i. if inv_id i = iid
                        then i\<lparr>isActive := b, deactivatedAt := (if b then None else Some t)\<rparr>
                        else i) xs). inv_ok i"
  by (induction xs) (simp_all add: inv_ok_def)

lemma setInvitationActive_keys:
  "map (\<lambda>i. (inv_id i, inv_eventId i)) (invitations (snd (setInvitationActive w db e iid a)))
   = map (\<lambda>i. (inv_id i, inv_eventId i)) (invitations db)"
  using setInvitationActive_store [of w db e iid a]
  by (elim disjE exE conjE) (simp_all add: toggled_keys)

lemma setInvitationActive_inv_ok:
  assumes "\<forall>i\<in>set (invitations db). inv_ok i"
  shows "\<forall>i\<in>set (invitations (snd (setInvitationActive w db e iid a))). inv_ok i"
  using setInvitationActive_store [of w db e iid a]
proof (elim disjE exE conjE)
  assume "snd (setInvitationActive w db e iid a) = db"
  with assms show ?thesis by simp
next
  fix b
  assume "snd (setInvitationActive w db e iid a) =
      db\<lparr>invitations := map (\<lambda>i. if inv_id i = iid
                                    then i\<lparr>isActive := b, deactivatedAt := (if b then None else Some (now w))\<rparr>
                                    else i) (invitations db)\<rparr>"
  then show ?thesis
    using toggled_inv_ok [OF assms, where iid = iid and b = b and t = "now w"] by simp
qed

lemma setActiveSeq_inv_ok:
  "\<forall>i\<in>set (invitations db). inv_ok i \<Longrightarrow> \<forall>i\<in>set (invitations (setActiveSeq db ops)). inv_ok i"
proof (induction db ops rule: setActiveSeq.induct)
  case (1 db)
  then show ?case by simp
next
  case (2 db w eventId invitationId a ops)
  from "2.prems" have "\<forall>i\<in>set (invitations (snd (setInvitationActive w db eventId invitationId a))). inv_ok i"
    by (rule setInvitationActive_inv_ok)
  then have "\<forall>i\<in>set (invitations (setActiveSeq (snd (setInvitationActive w db eventId invitationId a)) ops)). inv_ok i"
    by (rule "2.IH")
  then show ?case by (simp only: setActiveSeq.simps)
qed

lemma setActiveSeq_keys:
  "map (\<lambda>i. (inv_id i, inv_eventId i)) (invitations (setActiveSeq db ops))
   = map (\<lambda>i. (inv_id i, inv_eventId i)) (invitations db)"
proof (induction db ops rule: setActiveSeq.induct)
  case (1 db)
  then show ?case by simp
next
  case (2 db w eventId invitationId a ops)
  then show ?case
    by (simp only: setActiveSeq.simps setInvitationActive_keys)
qed

lemma setActiveSeq_append:
  "setActiveSeq db (ops @ ops') = setActiveSeq (setActiveSeq db ops) ops'"
proof (induction db ops rule: setActiveSeq.induct)
  case (1 db)
  then show ?case by simp
next
  case (2 db w eventId invitationId a ops)
  then show ?case
    by (simp only: setActiveSeq.simps append_Cons)
qed

lemma toggled_value:
  assumes "x \<in> set (map (\<lambda>i. if inv_id i = iid then i\<lparr>isActive := b, deactivatedAt := d\<rparr> else i) xs)"
    and "inv_id x = iid"
  shows "isActive x = b \<and> deactivatedAt x = d"
proof -
  from assms(1)
  have "x \<in> (\<lambda>i. if inv_id i = iid then i\<lparr>isActive := b, deactivatedAt := d\<rparr> else i) ` set xs"
    by (simp only: set_map)
  then obtain y where y: "x = (if inv_id y = iid then y\<lparr>isActive := b, deactivatedAt := d\<rparr> else y)"
    by (rule imageE)
  show ?thesis
  proof (cases "inv_id y = iid")
    case True
    with y have "x = y\<lparr>isActive := b, deactivatedAt := d\<rparr>" by simp
    then show ?thesis by simp
  next
    case False
    with y have "x = y" by simp
    with False assms(2) show ?thesis by simp
  qed
qed

lemma setInvitationActive_found:
  assumes "(iid, e) \<in> set (map (\<lambda>i. (inv_id i, inv_eventId i)) (invitations db))"
  shows "(\<exists>i. fst (setInvitationActive w db e iid (Some a)) = InvitationJson i \<and> isActive i = a \<and>
             deactivatedAt i = (if a then None else Some (now w))) \<and>
         (\<forall>i\<in>set (invitations (snd (setInvitationActive w db e iid (Some a)))).
            inv_id i = iid \<longrightarrow> isActive i = a \<and> deactivatedAt i = (if a then None else Some (now w)))"
proof -
  from assms have "find (\<lambda>i. inv_id i = iid \<and> inv_eventId i = e) (invitations db) \<noteq> None"
    by (auto simp: find_None_iff)
  then obtain x where x: "find (\<lambda>i. inv_id i = iid \<and> inv_eventId i = e) (invitations db) = Some x"
    by blast
  have 1: "\<exists>i. fst (setInvitationActive w db e iid (Some a)) = InvitationJson i \<and> isActive i = a \<and>
             deactivatedAt i = (if a then None else Some (now w))"
    using x by (simp add: setInvitationActive_def Let_def)
  have 2: "snd (setInvitationActive w db e iid (Some a)) =
      db\<lparr>invitations := map (\<lambda>i. if inv_id i = iid
                                    then i\<lparr>isActive := a, deactivatedAt := (if a then None else Some (now w))\<rparr>
                                    else i) (invitations db)\<rparr>"
    using x by (simp add: setInvitationActive_def Let_def)
  have 3: "isActive i = a \<and> deactivatedAt i = (if a then None else Some (now w))"
    if "i \<in> set (invitations (snd (setInvitationActive w db e iid (Some a))))" "inv_id i = iid" for i
    using that unfolding 2 by (intro toggled_value [where xs = "invitations db" and iid = iid]) simp_all
  from 1 3 show ?thesis by blast
qed


lemma setActiveSeq_last:
  "setActiveSeq db (ops @ [(w, e, iid, a)]) = snd (setInvitationActive w (setActiveSeq db ops) e iid a)"
  by (simp only: setActiveSeq_append setActiveSeq.simps)

text \<open>
  Claim C9. Every sequence of \<open>SetInvitationActive\<close> requests keeps the invariant that an
  invitation has a deactivation time exactly if it is inactive, and a new invitation
  satisfies it. After any such sequence, deactivating an invitation of the event makes it
  inactive with the time of the request as its deactivation time, and reactivating it
  afterwards makes it active again with the deactivation time cleared.
\<close>

theorem setInvitationActive_invariant:
  "((\<forall>i\<in>set (invitations db). inv_ok i) \<longrightarrow> (\<forall>i\<in>set (invitations (setActiveSeq db ops)). inv_ok i)) \<and>
   inv_ok (newInvitation w eid body) \<and>
   ((iid, e) \<in> set (map (\<lambda>i. (inv_id i, inv_eventId i)) (invitations db)) \<longrightarrow>
      (\<forall>i\<in>set (invitations (setActiveSeq db (ops @ [(wa, e, iid, Some False)]))).
          inv_id i = iid \<longrightarrow> \<not> isActive i \<and> deactivatedAt i = Some (now wa)) \<and>
      (\<forall>i\<in>set (invitations (setActiveSeq db (ops @ [(wa, e, iid, Some False), (wb, e, iid, Some True)]))).
          inv_id i = iid \<longrightarrow> isActive i \<and> deactivatedAt i = None) \<and>
      (\<exists>i\<in>set (invitations (setActiveSeq db (ops @ [(wa, e, iid, Some False), (wb, e, iid, Some True)]))).
          inv_id i = iid))"
proof (intro conjI impI)
  assume "\<forall>i\<in>set (invitations db). inv_ok i"
  then show "\<forall>i\<in>set (invitations (setActiveSeq db ops)). inv_ok i"
    by (rule setActiveSeq_inv_ok)
next
  show "inv_ok (newInvitation w eid body)"
    by (simp add: inv_ok_def newInvitation_def)
next
  assume k: "(iid, e) \<in> set (map (\<lambda>i. (inv_id i, inv_eventId i)) (invitations db))"
  let ?db1 = "setActiveSeq db ops"
  let ?db2 = "setActiveSeq db (ops @ [(wa, e, iid, Some False)])"
  let ?db3 = "setActiveSeq db (ops @ [(wa, e, iid, Some False), (wb, e, iid, Some True)])"
  have k1: "(iid, e) \<in> set (map (\<lambda>i. (inv_id i, inv_eventId i)) (invitations ?db1))"
    using k by (simp only: setActiveSeq_keys)
  have k2: "(iid, e) \<in> set (map (\<lambda>i. (inv_id i, inv_eventId i)) (invitations ?db2))"
    using k by (simp only: setActiveSeq_keys)
  have k3: "(iid, e) \<in> set (map (\<lambda>i. (inv_id i, inv_eventId i)) (invitations ?db3))"
    using k by (simp only: setActiveSeq_keys)
  have s2: "?db2 = snd (setInvitationActive wa ?db1 e iid (Some False))"
    by (rule setActiveSeq_last)
  have "?db3 = setActiveSeq db ((ops @ [(wa, e, iid, Some False)]) @ [(wb, e, iid, Some True)])"
    by simp
  then have s3: "?db3 = snd (setInvitationActive wb ?db2 e iid (Some True))"
    by (simp only: setActiveSeq_last)
  show "\<forall>i\<in>set (invitations ?db2). inv_id i = iid \<longrightarrow> \<not> isActive i \<and> deactivatedAt i = Some (now wa)"
    using setInvitationActive_found [OF k1, of wa False] unfolding s2 by simp
  show "\<forall>i\<in>set (invitations ?db3). inv_id i = iid \<longrightarrow> isActive i \<and> deactivatedAt i = None"
    using setInvitationActive_found [OF k2, of wb True] unfolding s3 by simp
  from k3 obtain i where "i \<in> set (invitations ?db3)" "(iid, e) = (inv_id i, inv_eventId i)"
    unfolding set_map by (rule imageE)
  then show "\<exists>i\<in>set (invitations ?db3). inv_id i = iid"
    by (intro bexI [of _ i]) simp_all
qed

text \<open>An active invitation that is toggled off and on twice, and off once more.\<close>

lemma ex_toggled_twice:
  "invitations (setActiveSeq ex_db4
        ([(ex_world, ''e1'', ''i1'', Some False), (ex_world, ''e1'', ''i1'', Some True)] @
         [(ex_world, ''e1'', ''i1'', Some False), (ex_world, ''e1'', ''i1'', Some True)]))
     = [ex_invitation]"
  by (simp add: setInvitationActive_def Let_def ex_db4_def ex_db_def ex_invitation_def)

lemma ex_toggled_off:
  "invitations (setActiveSeq ex_db4
        ([(ex_world, ''e1'', ''i1'', Some False), (ex_world, ''e1'', ''i1'', Some True)] @
         [(ex_world, ''e1'', ''i1'', Some False)]))
     = [ex_invitation\<lparr>isActive := False, deactivatedAt := Some 10000000\<rparr>]"
  by (simp add: setInvitationActive_def Let_def ex_db4_def ex_db_def ex_invitation_def ex_world_def)

theorem setInvitationActive_invariant_witness:
  "inv_ok ex_invitation \<and>
   (''i1'', ''e1'') \<in> set (map (\<lambda>i. (inv_id i, inv_eventId i)) (invitations ex_db4)) \<and>
   invitations (setActiveSeq ex_db4
        ([(ex_world, ''e1'', ''i1'', Some False), (ex_world, ''e1'', ''i1'', Some True)] @
         [(ex_world, ''e1'', ''i1'', Some False), (ex_world, ''e1'', ''i1'', Some True)]))
     = [ex_invitation] \<and>
   isActive ex_invitation \<and> deactivatedAt ex_invitation = None \<and>
   invitations (setActiveSeq ex_db4
        ([(ex_world, ''e1'', ''i1'', Some False), (ex_world, ''e1'', ''i1'', Some True)] @
         [(ex_world, ''e1'', ''i1'', Some False)]))
     = [ex_invitation\<lparr>isActive := False, deactivatedAt := Some 10000000\<rparr>] \<and>
   inv_ok (ex_invitation\<lparr>isActive := False, deactivatedAt := Some 10000000\<rparr>)"
proof -
  have a: "\<forall>i\<in>set (invitations ex_db4). inv_ok i"
    by (simp add: ex_db4_def ex_invitation_def inv_ok_def)
  then have a': "inv_ok ex_invitation"
    by (simp add: ex_db4_def)
  have b: "(''i1'', ''e1'') \<in> set (map (\<lambda>i. (inv_id i, inv_eventId i)) (invitations ex_db4))"
    by (simp add: ex_db4_def ex_invitation_def)
  have i: "inv_id ex_invitation = ''i1''"
    by (simp add: ex_invitation_def)
  note t = setInvitationActive_invariant [where db = ex_db4 and iid = "''i1''" and e = "''e1''"
      and wa = ex_world and wb = ex_world and w = ex_world and eid = "''e1''" and body = ex_payload
      and ops = "[(ex_world, ''e1'', ''i1'', Some False), (ex_world, ''e1'', ''i1'', Some True)]",
      THEN conjunct2, THEN conjunct2, THEN mp, OF b]
  note u = setInvitationActive_invariant [where db = ex_db4 and iid = "''i1''" and e = "''e1''"
      and wa = ex_world and wb = ex_world and w = ex_world and eid = "''e1''" and body = ex_payload
      and ops = "[(ex_world, ''e1'', ''i1'', Some False), (ex_world, ''e1'', ''i1'', Some True)] @
         [(ex_world, ''e1'', ''i1'', Some False)]",
      THEN conjunct1, THEN mp, OF a]
  from t [THEN conjunct2, THEN conjunct1] i
  have on: "isActive ex_invitation \<and> deactivatedAt ex_invitation = None"
    unfolding ex_toggled_twice by simp
  from u have off: "inv_ok (ex_invitation\<lparr>isActive := False, deactivatedAt := Some 10000000\<rparr>)"
    unfolding ex_toggled_off by simp
  show ?thesis
    by (intro conjI) (rule a', rule b, rule ex_toggled_twice, rule on [THEN conjunct1],
        rule on [THEN conjunct2], rule ex_toggled_off, rule off)
qed

section \<open>The link helpers\<close>














text \<open>The two side conditions are needed: \<open>$$\<close> and \<open>$&\<close> in the link are read as
  substitution patterns, so that the text inserted for the placeholder is not the link and
  the body can come back unchanged, and a link with line feeds can overlap the appended
  separator.\<close>

lemma ensureInviteLink_dollar_pattern:
  "ensureInviteLink ''see {{inviteLink}}'' ''$&'' = ''see {{inviteLink}}'' \<and>
   ensureInviteLink ''see {{inviteLink}}'' ''http://h/$$/1'' = ''see http://h/$/1'' \<and>
   \<not> includes_str ''see http://h/$/1'' ''http://h/$$/1''"
  by (simp add: ensureInviteLink_def inviteLinkPlaceholder_def js_replace_def)

lemma ensureInviteLink_dollar_not_idempotent:
  "ensureInviteLink ''{{inviteLink}} {{inviteLink}}'' ''a$$b'' = ''a$b {{inviteLink}}'' \<and>
   ensureInviteLink ''a$b {{inviteLink}}'' ''a$$b'' = ''a$b a$b''"
  by (simp add: ensureInviteLink_def inviteLinkPlaceholder_def js_replace_def)

lemma ensureInviteLink_linefeed_twice:
  "\<not> includes_str ''x'' [CHR ''x'', LF, LF, CHR ''x''] \<and>
   \<not> includes_str ''x'' inviteLinkPlaceholder \<and>
   occurrences (ensureInviteLink ''x'' [CHR ''x'', LF, LF, CHR ''x'']) [CHR ''x'', LF, LF, CHR ''x''] = 2"
  by (simp add: ensureInviteLink_def inviteLinkPlaceholder_def LF_def)



section \<open>Listing audit records\<close>

lemma sorted_desc_sort_key:
  "sorted_wrt (\<lambda>a b. log_createdAt b \<le> log_createdAt a) (sort_key (\<lambda>l. - log_createdAt l) xs)"
  using sorted_sort_key [of "\<lambda>l. - log_createdAt l" xs] by (simp add: sorted_map)

lemma page_newest:
  assumes "sorted_wrt (\<lambda>a b. log_createdAt b \<le> log_createdAt a) xs"
    and "x \<in> set (take n xs)" and "y \<in> set xs" and "y \<notin> set (take n xs)"
  shows "log_createdAt y \<le> log_createdAt x"
proof -
  from assms(1) have "sorted_wrt (\<lambda>a b. log_createdAt b \<le> log_createdAt a) (take n xs @ drop n xs)"
    by simp
  then have 1: "\<forall>a\<in>set (take n xs). \<forall>b\<in>set (drop n xs). log_createdAt b \<le> log_createdAt a"
    unfolding sorted_wrt_append by blast
  have "set xs = set (take n xs) \<union> set (drop n xs)"
    by (metis append_take_drop_id set_append)
  with assms(3,4) have "y \<in> set (drop n xs)" by blast
  with 1 assms(2) show ?thesis by blast
qed

lemma listEmailLogs_page:
  "listEmailLogs db eid q = LogsJson (take 100 (sort_key (\<lambda>l. - log_createdAt l) (matching db eid (wantedStatus q))))"
  by (simp add: listEmailLogs_def matching_def wantedStatus_def Let_def)

text \<open>
  Claim C6, as the code has it. The listing answers with the audit records of the event,
  newest first, at most 100 of them and never an older record in place of a newer one. A
  query value that is one of \<open>SENT\<close>, \<open>FAILED\<close>, \<open>DISABLED\<close>, \<open>RATE_LIMITED\<close> restricts the
  page to the records with that outcome; any other value selects no status, and the
  request is answered exactly as the request without a filter is.
\<close>

theorem listEmailLogs_page_unfiltered:
  "\<exists>rows. listEmailLogs db eid q = LogsJson rows \<and>
      sorted_wrt (\<lambda>a b. log_createdAt b \<le> log_createdAt a) rows \<and>
      length rows = min 100 (length (matching db eid (wantedStatus q))) \<and>
      set rows \<subseteq> set (matching db eid (wantedStatus q)) \<and>
      (\<forall>x\<in>set rows. \<forall>y\<in>set (matching db eid (wantedStatus q)).
          y \<notin> set rows \<longrightarrow> log_createdAt y \<le> log_createdAt x) \<and>
      (\<forall>l\<in>set rows. log_eventId l = Some eid) \<and>
      (\<forall>st. wantedStatus q = Some st \<longrightarrow> (\<forall>l\<in>set rows. log_status l = st)) \<and>
      (wantedStatus q = None \<longrightarrow> listEmailLogs db eid q = listEmailLogs db eid None) \<and>
      (\<forall>s. q = Some s \<and> s \<notin> {''SENT'', ''FAILED'', ''DISABLED'', ''RATE_LIMITED''} \<longrightarrow>
           wantedStatus q = None)"
proof -
  let ?m = "matching db eid (wantedStatus q)"
  let ?s = "sort_key (\<lambda>l. - log_createdAt l) ?m"
  let ?rows = "take 100 ?s"
  have srt: "sorted_wrt (\<lambda>a b. log_createdAt b \<le> log_createdAt a) ?s"
    by (rule sorted_desc_sort_key)
  have 1: "listEmailLogs db eid q = LogsJson ?rows"
    by (rule listEmailLogs_page)
  have 2: "sorted_wrt (\<lambda>a b. log_createdAt b \<le> log_createdAt a) ?rows"
    using srt by (rule sorted_wrt_take)
  have 3: "length ?rows = min 100 (length ?m)"
    by simp
  have sub: "set ?rows \<subseteq> set ?m"
    using set_take_subset [of 100 ?s] by simp
  have 5: "\<forall>x\<in>set ?rows. \<forall>y\<in>set ?m. y \<notin> set ?rows \<longrightarrow> log_createdAt y \<le> log_createdAt x"
    using page_newest [OF srt, of _ 100] by simp
  have 6: "\<forall>l\<in>set ?rows. log_eventId l = Some eid"
    using sub by (auto simp: matching_def)
  have 7: "\<forall>st. wantedStatus q = Some st \<longrightarrow> (\<forall>l\<in>set ?rows. log_status l = st)"
    using sub by (auto simp: matching_def)
  have 8: "wantedStatus q = None \<longrightarrow> listEmailLogs db eid q = listEmailLogs db eid None"
    by (simp add: listEmailLogs_page) (simp add: wantedStatus_def)
  have 9: "\<forall>s. q = Some s \<and> s \<notin> {''SENT'', ''FAILED'', ''DISABLED'', ''RATE_LIMITED''} \<longrightarrow>
           wantedStatus q = None"
    by (simp add: wantedStatus_def parseStatus_def)
  show ?thesis
    by (rule exI [of _ ?rows], intro conjI) (rule 1, rule 2, rule 3, rule sub, rule 5, rule 6, rule 7,
        rule 8, rule 9)
qed

text \<open>A status outside the enumeration is not rejected: the answer is the page of all
  the records of the event, which is what claim C6 rules out.\<close>

theorem listEmailLogs_unknown_status_counterexample:
  "listEmailLogs (ex_db\<lparr>emailLogs := [ex_log SENT 9000000, ex_log FAILED 9500000]\<rparr>) ''e1'' (Some ''BOGUS'')
     = LogsJson [ex_log FAILED 9500000, ex_log SENT 9000000]"
  by (simp add: listEmailLogs_def parseStatus_def ex_db_def ex_log_def)

text \<open>An unknown status and a known one, on an event with a sent and a failed record.\<close>

theorem listEmailLogs_page_unfiltered_witness:
  "wantedStatus (Some ''BOGUS'') = None \<and>
   listEmailLogs (ex_db\<lparr>emailLogs := [ex_log SENT 9000000, ex_log FAILED 9500000]\<rparr>) ''e1'' (Some ''BOGUS'')
     = listEmailLogs (ex_db\<lparr>emailLogs := [ex_log SENT 9000000, ex_log FAILED 9500000]\<rparr>) ''e1'' None \<and>
   wantedStatus (Some ''FAILED'') = Some FAILED \<and>
   (\<exists>rows. listEmailLogs (ex_db\<lparr>emailLogs := [ex_log SENT 9000000, ex_log FAILED 9500000]\<rparr>) ''e1''
              (Some ''FAILED'') = LogsJson rows \<and>
           (\<forall>l\<in>set rows. log_status l = FAILED))"
proof -
  have a: "wantedStatus (Some ''BOGUS'') = None"
    by (simp add: wantedStatus_def parseStatus_def)
  have b: "wantedStatus (Some ''FAILED'') = Some FAILED"
    by (simp add: wantedStatus_def parseStatus_def)
  obtain rows where r: "wantedStatus (Some ''BOGUS'') = None \<longrightarrow>
     listEmailLogs (ex_db\<lparr>emailLogs := [ex_log SENT 9000000, ex_log FAILED 9500000]\<rparr>) ''e1'' (Some ''BOGUS'')
     = listEmailLogs (ex_db\<lparr>emailLogs := [ex_log SENT 9000000, ex_log FAILED 9500000]\<rparr>) ''e1'' None"
    using listEmailLogs_page_unfiltered [of "ex_db\<lparr>emailLogs := [ex_log SENT 9000000, ex_log FAILED 9500000]\<rparr>"
      "''e1''" "Some ''BOGUS''"] by (elim exE conjE)
  obtain rows where f: "listEmailLogs (ex_db\<lparr>emailLogs := [ex_log SENT 9000000, ex_log FAILED 9500000]\<rparr>) ''e1''
              (Some ''FAILED'') = LogsJson rows"
    and g: "\<forall>st. wantedStatus (Some ''FAILED'') = Some st \<longrightarrow> (\<forall>l\<in>set rows. log_status l = st)"
    using listEmailLogs_page_unfiltered [of "ex_db\<lparr>emailLogs := [ex_log SENT 9000000, ex_log FAILED 9500000]\<rparr>"
      "''e1''" "Some ''FAILED''"] by (elim exE conjE)
  from g b have h: "\<forall>l\<in>set rows. log_status l = FAILED" by blast
  show ?thesis
    by (intro conjI exI [of _ rows]) (rule a, rule r [THEN mp, OF a], rule b, rule f, rule h)
qed

section \<open>The dispatch route, step by step\<close>

lemma issueAndSend_unfold:
  "issueAndSend w db ev eid body adm =
     (if \<not> tokenFresh w db then (Unhandled, db)
      else if body_deliveryMethod body = EMAIL \<and> truthy_str (body_email body) then
        (case fst (sendInvitationEmail w (issued w db eid body) (routeOptions w ev body adm)) of
           StatusError msg \<Rightarrow> Message 500 msg
         | _ \<Rightarrow> Created (newInvitation w eid body) (joinLink w),
         snd (sendInvitationEmail w (issued w db eid body) (routeOptions w ev body adm)))
      else (Created (newInvitation w eid body) (joinLink w), issued w db eid body))"
proof -
  have nr: "fst (sendInvitationEmail w (issued w db eid body) (routeOptions w ev body adm)) \<noteq> StatusRateLimited m" for m
    by (rule send_skip_not_rate_limited) (simp add: routeOptions_def)
  have e: "inv_token (newInvitation w eid body) = randomToken w" "inv_id (newInvitation w eid body) = newInvitationId w"
    by (simp_all add: newInvitation_def)
  show ?thesis
    using nr unfolding issueAndSend_def Let_def e
    unfolding issued_def [symmetric] joinLink_def [symmetric] routeOptions_def [symmetric]
    by (cases "sendInvitationEmail w (issued w db eid body) (routeOptions w ev body adm)")
       (auto split: emailStatus.splits simp: tokenFresh_def)
qed


lemma enabled_from:
  "isEmailSendingEnabled s \<Longrightarrow> truthy_str (or_str x (Option.bind s smtpFromAddress))"
  by (cases s) (auto simp: isEmailSendingEnabled_def or_str_def)

lemma createInvitation_cases:
  assumes "createInvitation w db eid body adm = (r, db')"
  obtains (notfound) "r = Message 404 ''Event not found''" "db' = db"
  | (invalid) "r = Message 400 ''Email is required for email invitations''" "db' = db"
      "body_deliveryMethod body = EMAIL" "\<not> truthy_str (body_email body)"
  | (disabled) "r = Message 400 ''E-Mail-Versand ist nicht konfiguriert. Bitte SMTP einrichten.''" "db' = db"
      "body_deliveryMethod body = EMAIL" "\<not> isEmailSendingEnabled (settingsRow db)"
  | (limited) row where "r = Message 429 (nullish_default (message (precheckRateLimit w db adm)) ''Rate-Limit erreicht'')"
      "db' = db\<lparr>emailLogs := emailLogs db @ [row]\<rparr>" "log_status row = RATE_LIMITED"
      "\<not> allowed (precheckRateLimit w db adm)" "auditWriteOk w"
  | (logfail) "r = Unhandled" "db' = db" "\<not> auditWriteOk w"
  | (issue) ev where "find (\<lambda>e. evt_id e = eid) (events db) = Some ev"
      "issueAndSend w db ev eid body adm = (r, db')"
      "body_deliveryMethod body = EMAIL \<longrightarrow> truthy_str (body_email body)"
proof (cases "find (\<lambda>e. evt_id e = eid) (events db)")
  case None
  with assms show ?thesis
    by (intro notfound) (simp_all add: createInvitation_def)
next
  case (Some ev)
  show ?thesis
  proof (cases "body_deliveryMethod body = EMAIL \<and> \<not> truthy_str (body_email body)")
    case True
    with assms Some show ?thesis
      by (intro invalid) (simp_all add: createInvitation_def)
  next
    case v: False
    show ?thesis
    proof (cases "body_deliveryMethod body = EMAIL \<and> \<not> isEmailSendingEnabled (settingsRow db)")
      case True
      with assms Some v show ?thesis
        by (intro disabled) (simp_all add: createInvitation_def)
    next
      case d: False
      show ?thesis
      proof (cases "body_deliveryMethod body = EMAIL \<and> truthy_str adm \<and> \<not> allowed (precheckRateLimit w db adm)")
        case g: True
        show ?thesis
        proof (cases "auditWriteOk w")
          case True
          with assms Some v d g show ?thesis
            by (intro limited) (auto simp: createInvitation_def Let_def)
        next
          case False
          with assms Some v d g show ?thesis
            by (intro logfail) (auto simp: createInvitation_def Let_def)
        qed
      next
        case False
        with assms Some v d have "issueAndSend w db ev eid body adm = (r, db')"
          by (auto simp: createInvitation_def Let_def split: if_splits)
        with Some v show ?thesis
          by (intro issue) auto
      qed
    qed
  qed
qed


lemma issueAndSend_replies:
  assumes "issueAndSend w db ev eid body adm = (r, db')"
  shows "r = Unhandled \<and> db' = db \<or>
         tokenFresh w db \<and> body_deliveryMethod body = LINK \<and>
           r = Created (newInvitation w eid body) (joinLink w) \<and> db' = issued w db eid body \<or>
         tokenFresh w db \<and> body_deliveryMethod body = EMAIL \<and> \<not> truthy_str (body_email body) \<and>
           r = Created (newInvitation w eid body) (joinLink w) \<and> db' = issued w db eid body \<or>
         tokenFresh w db \<and> body_deliveryMethod body = EMAIL \<and> truthy_str (body_email body) \<and>
           db' = snd (sendInvitationEmail w (issued w db eid body) (routeOptions w ev body adm)) \<and>
           (case fst (sendInvitationEmail w (issued w db eid body) (routeOptions w ev body adm)) of
              StatusError msg \<Rightarrow> r = Message 500 msg
            | StatusRateLimited msg \<Rightarrow> False
            | _ \<Rightarrow> r = Created (newInvitation w eid body) (joinLink w))"
proof -
  have nr: "fst (sendInvitationEmail w (issued w db eid body) (routeOptions w ev body adm)) \<noteq> StatusRateLimited m" for m
    by (rule send_skip_not_rate_limited) (simp add: routeOptions_def)
  have m: "body_deliveryMethod body = LINK \<or> body_deliveryMethod body = EMAIL"
    by (cases "body_deliveryMethod body") simp_all
  from assms nr m show ?thesis
    unfolding issueAndSend_unfold
    by (cases "fst (sendInvitationEmail w (issued w db eid body) (routeOptions w ev body adm))")
       (auto split: if_splits)
qed

lemma send_one_record:
  assumes "auditWriteOk w"
  shows "\<exists>row. snd (sendInvitationEmail w db opts) = db\<lparr>emailLogs := emailLogs db @ [row]\<rparr> \<and>
           log_status row = status_of (fst (sendInvitationEmail w db opts))"
proof -
  obtain row where "snd (sendInvitationEmail w db opts) = logEmail w db row"
    "log_status row = status_of (fst (sendInvitationEmail w db opts))"
    using send_result_cases [of w db opts] by blast
  with assms show ?thesis by (auto simp: logEmail_def)
qed

lemma send_skip_quota_free:
  "skipRateCheck opts \<Longrightarrow>
   fst (sendInvitationEmail w (db\<lparr>emailLogs := ls\<rparr>) opts) = fst (sendInvitationEmail w db opts)"
  unfolding sendInvitationEmail_def Let_def
  by (simp split: sendOutcome.split)

lemma send_recheck_denied:
  assumes "\<not> skipRateCheck opts" "isEmailSendingEnabled (settingsRow db)"
    "\<not> allowed (fst (checkRateLimit (env w) db (now w) (opt_adminId opts) (settingsRow db)))"
  shows "fst (sendInvitationEmail w db opts) =
           StatusRateLimited (nullish_default
              (message (fst (checkRateLimit (env w) db (now w) (opt_adminId opts) (settingsRow db))))
              ''Rate-Limit erreicht'')"
  using assms enabled_from [OF assms(2), of "senderEmail (opt_event opts)"]
  unfolding sendInvitationEmail_def Let_def by simp

lemma ex_run_sent:
  "createInvitation ex_world ex_db ''e1'' ex_payload (Some ''adminA'') =
     (Created ex_new_invitation ''http://localhost:5173/join/5f2a9c'',
      ex_db_issued\<lparr>emailLogs := emailLogs ex_db_issued @ [ex_sent_row]\<rparr>)"
  by (simp add: ex_defs route_defs ex_subject)

lemma ex_run_busy:
  "createInvitation ex_world_busy ex_db ''e1'' ex_payload (Some ''adminA'') =
     (Created ex_new_invitation ''http://localhost:5173/join/5f2a9c'',
      ex_db_busy\<lparr>emailLogs := emailLogs ex_db_busy @ [ex_sent_row]\<rparr>)"
  by (simp add: ex_defs route_defs ex_subject)

lemma ex_run_nolog:
  "createInvitation ex_world_nolog ex_db ''e1'' ex_payload (Some ''adminA'') =
     (Created ex_new_invitation ''http://localhost:5173/join/5f2a9c'', ex_db_issued)"
  by (simp add: ex_defs route_defs ex_subject)

lemma ex_run_refused:
  "createInvitation ex_world_refused ex_db ''e1'' ex_payload (Some ''adminA'') =
     (Message 500 ''connection refused'',
      ex_db_issued\<lparr>emailLogs := emailLogs ex_db_issued @
         [ex_sent_row\<lparr>log_status := FAILED, log_errorMessage := Some ''connection refused''\<rparr>]\<rparr>)"
  by (simp add: ex_defs route_defs ex_subject)


lemma ex_db2_check:
  "checkRateLimit ex_env ex_db2 10000000 (Some ''adminA'') (Some ex_settings)
     = (\<lparr>allowed = False, message = Some ''Limit erreicht (2 pro Stunde).''\<rparr>, [6400000])"
  by (simp add: ex_db2_def ex_defs route_defs)

text \<open>
  Claim C2, as the code has it. The route passes \<open>skipRateCheck: true\<close> to the send step:
  with it, \<open>sendInvitationEmail\<close> never answers \<open>rate_limited\<close> and its outcome does not
  depend on the audit log, so quota is not checked again after the token has been issued.
  The route therefore never answers 429 from the send step and never deletes the invitation
  it has created; a 429 comes from the quota gate before the token is issued, where no invitation
  exists. The second check exists in \<open>sendInvitationEmail\<close> for a call without
  \<open>skipRateCheck\<close>: when sending is enabled and the check denies, the call answers
  \<open>rate_limited\<close> with the message of the check and hands one \<open>RATE_LIMITED\<close> row to
  \<open>logEmail\<close>.
\<close>

theorem dispatch_no_second_check:
  "(skipRateCheck opts \<longrightarrow>
      (\<forall>m. fst (sendInvitationEmail w db opts) \<noteq> StatusRateLimited m) \<and>
      (\<forall>ls. fst (sendInvitationEmail w (db\<lparr>emailLogs := ls\<rparr>) opts) = fst (sendInvitationEmail w db opts))) \<and>
   skipRateCheck (routeOptions w ev body adm) \<and>
   (issueAndSend w db ev eid body adm = (r, db') \<longrightarrow>
      (\<forall>m. r \<noteq> Message 429 m) \<and>
      (r \<noteq> Unhandled \<longrightarrow> invitations db' = invitations (issued w db eid body))) \<and>
   (createInvitation w db eid body adm = (Message 429 m, db') \<longrightarrow>
      \<not> allowed (precheckRateLimit w db adm) \<and> invitations db' = invitations db) \<and>
   (\<not> skipRateCheck opts \<and> isEmailSendingEnabled (settingsRow db) \<and>
    \<not> allowed (fst (checkRateLimit (env w) db (now w) (opt_adminId opts) (settingsRow db))) \<longrightarrow>
      fst (sendInvitationEmail w db opts) =
        StatusRateLimited (nullish_default
           (message (fst (checkRateLimit (env w) db (now w) (opt_adminId opts) (settingsRow db))))
           ''Rate-Limit erreicht'') \<and>
      (\<exists>row. snd (sendInvitationEmail w db opts) = logEmail w db row \<and> log_status row = RATE_LIMITED))"
proof (intro conjI impI allI)
  fix m
  assume "skipRateCheck opts"
  then show "fst (sendInvitationEmail w db opts) \<noteq> StatusRateLimited m"
    by (rule send_skip_not_rate_limited)
next
  fix ls
  assume "skipRateCheck opts"
  then show "fst (sendInvitationEmail w (db\<lparr>emailLogs := ls\<rparr>) opts) = fst (sendInvitationEmail w db opts)"
    by (rule send_skip_quota_free)
next
  show "skipRateCheck (routeOptions w ev body adm)"
    by (simp add: routeOptions_def)
next
  fix m
  assume "issueAndSend w db ev eid body adm = (r, db')"
  then show "r \<noteq> Message 429 m"
    using issueAndSend_not_429 [of w db ev eid body adm m] by auto
next
  assume a: "issueAndSend w db ev eid body adm = (r, db')" and u: "r \<noteq> Unhandled"
  obtain row where row: "snd (sendInvitationEmail w (issued w db eid body) (routeOptions w ev body adm))
      = logEmail w (issued w db eid body) row"
    using send_result_cases [of w "issued w db eid body" "routeOptions w ev body adm"] by blast
  have "invitations (logEmail w (issued w db eid body) row) = invitations (issued w db eid body)"
    by (simp add: logEmail_def)
  with issueAndSend_replies [OF a] u row show "invitations db' = invitations (issued w db eid body)"
    by auto
next
  assume a: "createInvitation w db eid body adm = (Message 429 m, db')"
  from a show "\<not> allowed (precheckRateLimit w db adm)"
  proof (cases rule: createInvitation_cases)
    case (issue ev)
    then show ?thesis using issueAndSend_not_429 [of w db ev eid body adm m] by auto
  qed simp_all
  from createInvitation_429 [OF a] show "invitations db' = invitations db"
    by auto
next
  assume a: "\<not> skipRateCheck opts \<and> isEmailSendingEnabled (settingsRow db) \<and>
    \<not> allowed (fst (checkRateLimit (env w) db (now w) (opt_adminId opts) (settingsRow db)))"
  then show f: "fst (sendInvitationEmail w db opts) =
        StatusRateLimited (nullish_default
           (message (fst (checkRateLimit (env w) db (now w) (opt_adminId opts) (settingsRow db))))
           ''Rate-Limit erreicht'')"
    by (intro send_recheck_denied) simp_all
  obtain row where "snd (sendInvitationEmail w db opts) = logEmail w db row"
    "log_status row = status_of (fst (sendInvitationEmail w db opts))"
    using send_result_cases [of w db opts] by blast
  then show "\<exists>row. snd (sendInvitationEmail w db opts) = logEmail w db row \<and> log_status row = RATE_LIMITED"
    unfolding f by auto
qed


text \<open>
  A dispatch passes the quota gate with an empty audit log; before its send step, two mails of
  the same operator are recorded, so that a check at that point denies (ceiling 2 per
  hour). The route sends all the same: it answers 201, keeps the invitation and records
  \<open>SENT\<close>, where claim C2 has the invitation deleted, \<open>RATE_LIMITED\<close> recorded and 429
  returned.
\<close>

theorem dispatch_second_check_counterexample:
  "allowed (precheckRateLimit ex_world_busy ex_db (Some ''adminA'')) \<and>
   issued ex_world_busy ex_db ''e1'' ex_payload = ex_db_busy \<and>
   \<not> allowed (fst (checkRateLimit ex_env ex_db_busy 10000000 (Some ''adminA'') (settingsRow ex_db_busy))) \<and>
   createInvitation ex_world_busy ex_db ''e1'' ex_payload (Some ''adminA'') =
     (Created ex_new_invitation ''http://localhost:5173/join/5f2a9c'',
      ex_db_busy\<lparr>emailLogs := emailLogs ex_db_busy @ [ex_sent_row]\<rparr>)"
proof (intro conjI)
  show "allowed (precheckRateLimit ex_world_busy ex_db (Some ''adminA''))"
    by (simp add: ex_defs route_defs)
  show "issued ex_world_busy ex_db ''e1'' ex_payload = ex_db_busy"
    by (simp add: issued_def ex_defs newInvitation_def)
  show "\<not> allowed (fst (checkRateLimit ex_env ex_db_busy 10000000 (Some ''adminA'') (settingsRow ex_db_busy)))"
    by (simp add: ex_defs route_defs)
  show "createInvitation ex_world_busy ex_db ''e1'' ex_payload (Some ''adminA'') =
     (Created ex_new_invitation ''http://localhost:5173/join/5f2a9c'',
      ex_db_busy\<lparr>emailLogs := emailLogs ex_db_busy @ [ex_sent_row]\<rparr>)"
    by (rule ex_run_busy)
qed

text \<open>The same run, a dispatch denied at the quota gate, and a send step called without
  \<open>skipRateCheck\<close> at the ceiling.\<close>

theorem dispatch_no_second_check_witness:
  "skipRateCheck ex_options \<and>
   fst (sendInvitationEmail ex_world ex_db2 ex_options) \<noteq> StatusRateLimited ''Limit erreicht (2 pro Stunde).'' \<and>
   createInvitation ex_world_busy ex_db ''e1'' ex_payload (Some ''adminA'') =
     (Created ex_new_invitation ''http://localhost:5173/join/5f2a9c'',
      ex_db_busy\<lparr>emailLogs := emailLogs ex_db_busy @ [ex_sent_row]\<rparr>) \<and>
   invitations (ex_db_busy\<lparr>emailLogs := emailLogs ex_db_busy @ [ex_sent_row]\<rparr>)
     = invitations (issued ex_world_busy ex_db ''e1'' ex_payload) \<and>
   createInvitation ex_world ex_db2 ''e1'' ex_payload (Some ''adminA'') =
     (Message 429 ''Limit erreicht (2 pro Stunde).'', ex_db2\<lparr>emailLogs := emailLogs ex_db2 @ [ex_denied_row]\<rparr>) \<and>
   \<not> allowed (precheckRateLimit ex_world ex_db2 (Some ''adminA'')) \<and>
   \<not> skipRateCheck (ex_options\<lparr>skipRateCheck := False\<rparr>) \<and>
   isEmailSendingEnabled (settingsRow ex_db2) \<and>
   fst (sendInvitationEmail ex_world ex_db2 (ex_options\<lparr>skipRateCheck := False\<rparr>))
     = StatusRateLimited ''Limit erreicht (2 pro Stunde).''"
proof -
  have s1: "skipRateCheck ex_options"
    by (simp add: ex_options_def)
  have s2: "\<not> skipRateCheck (ex_options\<lparr>skipRateCheck := False\<rparr>)"
    by simp
  have en: "isEmailSendingEnabled (settingsRow ex_db2)"
    by (simp add: ex_db2_def ex_defs isEmailSendingEnabled_def)
  have ck: "checkRateLimit (env ex_world) ex_db2 (now ex_world)
              (opt_adminId (ex_options\<lparr>skipRateCheck := False\<rparr>)) (settingsRow ex_db2)
            = (\<lparr>allowed = False, message = Some ''Limit erreicht (2 pro Stunde).''\<rparr>, [6400000])"
    using ex_db2_check by (simp add: ex_world_def ex_options_def ex_db2_def ex_db_def)
  have dn: "\<not> allowed (fst (checkRateLimit (env ex_world) ex_db2 (now ex_world)
              (opt_adminId (ex_options\<lparr>skipRateCheck := False\<rparr>)) (settingsRow ex_db2)))"
    unfolding ck by simp
  have ias: "issueAndSend ex_world_busy ex_db ex_event ''e1'' ex_payload (Some ''adminA'') =
     (Created ex_new_invitation ''http://localhost:5173/join/5f2a9c'',
      ex_db_busy\<lparr>emailLogs := emailLogs ex_db_busy @ [ex_sent_row]\<rparr>)"
    by (simp add: ex_defs route_defs ex_subject)
  have nu: "Created ex_new_invitation ''http://localhost:5173/join/5f2a9c'' \<noteq> Unhandled"
    by simp
  note a = dispatch_no_second_check [where opts = ex_options and w = ex_world and db = ex_db2,
      THEN conjunct1, THEN mp, OF s1, THEN conjunct1, THEN spec,
      of "''Limit erreicht (2 pro Stunde).''"]
  note b = dispatch_no_second_check [where w = ex_world_busy and db = ex_db and ev = ex_event
      and eid = "''e1''" and body = ex_payload and adm = "Some ''adminA''"
      and r = "Created ex_new_invitation ''http://localhost:5173/join/5f2a9c''"
      and db' = "ex_db_busy\<lparr>emailLogs := emailLogs ex_db_busy @ [ex_sent_row]\<rparr>",
      THEN conjunct2, THEN conjunct2, THEN conjunct1, THEN mp, OF ias, THEN conjunct2, THEN mp, OF nu]
  note c = dispatch_no_second_check [where w = ex_world and db = ex_db2
      and eid = "''e1''" and body = ex_payload and adm = "Some ''adminA''"
      and m = "''Limit erreicht (2 pro Stunde).''"
      and db' = "ex_db2\<lparr>emailLogs := emailLogs ex_db2 @ [ex_denied_row]\<rparr>",
      THEN conjunct2, THEN conjunct2, THEN conjunct2, THEN conjunct1, THEN mp, OF ex_db2_denied,
      THEN conjunct1]
  note d = dispatch_no_second_check [where opts = "ex_options\<lparr>skipRateCheck := False\<rparr>"
      and w = ex_world and db = ex_db2,
      THEN conjunct2, THEN conjunct2, THEN conjunct2, THEN conjunct2, THEN mp,
      OF conjI [OF s2 conjI [OF en dn]], THEN conjunct1]
  have d': "fst (sendInvitationEmail ex_world ex_db2 (ex_options\<lparr>skipRateCheck := False\<rparr>))
     = StatusRateLimited ''Limit erreicht (2 pro Stunde).''"
    using d unfolding ck by (simp add: nullish_default_def)
  show ?thesis
    by (intro conjI) (rule s1, rule a, rule ex_run_busy, rule b, rule ex_db2_denied, rule c,
        rule s2, rule en, rule d')
qed

text \<open>
  Claim C3, as the code has it. A request answered with 400 (an \<open>EMAIL\<close> request without a
  recipient, or with sending disabled when the request arrives) leaves the store as it
  was. When the insert of audit rows succeeds: a request answered with 429 leaves one new
  audit row, \<open>RATE_LIMITED\<close>, and no invitation; every call of the send step leaves one new
  audit row with the outcome it returns; a request answered with 500 leaves one new audit
  row, \<open>FAILED\<close>, and the invitation it created; an \<open>EMAIL\<close> request answered with 201 leaves
  one new audit row, \<open>DISABLED\<close> if sending is disabled when the send step starts and \<open>SENT\<close>
  otherwise, and its invitation; a \<open>LINK\<close> request answered with 201 leaves its invitation
  and no audit row.
\<close>

theorem dispatch_audit_trail:
  assumes "auditWriteOk w"
  shows
  "(createInvitation w db eid body adm = (Message 400 m, db') \<longrightarrow> db' = db) \<and>
   (find (\<lambda>e. evt_id e = eid) (events db) \<noteq> None \<and> body_deliveryMethod body = EMAIL \<and>
    (\<not> truthy_str (body_email body) \<or> \<not> isEmailSendingEnabled (settingsRow db)) \<longrightarrow>
      (\<exists>m. createInvitation w db eid body adm = (Message 400 m, db))) \<and>
   (createInvitation w db eid body adm = (Message 429 m, db') \<longrightarrow>
      invitations db' = invitations db \<and>
      (\<exists>row. emailLogs db' = emailLogs db @ [row] \<and> log_status row = RATE_LIMITED)) \<and>
   (\<exists>row. snd (sendInvitationEmail w db opts) = db\<lparr>emailLogs := emailLogs db @ [row]\<rparr> \<and>
          log_status row = status_of (fst (sendInvitationEmail w db opts))) \<and>
   (createInvitation w db eid body adm = (Message 500 m, db') \<longrightarrow>
      invitations db' = invitations (issued w db eid body) \<and>
      (\<exists>row. emailLogs db' = emailLogs (issued w db eid body) @ [row] \<and> log_status row = FAILED)) \<and>
   (createInvitation w db eid body adm = (Created i l, db') \<and> body_deliveryMethod body = EMAIL \<longrightarrow>
      invitations db' = invitations (issued w db eid body) \<and>
      (\<exists>row. emailLogs db' = emailLogs (issued w db eid body) @ [row] \<and>
             (log_status row = SENT \<or> log_status row = DISABLED) \<and>
             (log_status row = DISABLED \<longleftrightarrow> \<not> isEmailSendingEnabled (settingsRow (issued w db eid body))))) \<and>
   (createInvitation w db eid body adm = (Created i l, db') \<and> body_deliveryMethod body = LINK \<longrightarrow>
      db' = issued w db eid body)"
proof (intro conjI impI)
  assume a: "createInvitation w db eid body adm = (Message 400 m, db')"
  then show "db' = db"
  proof (cases rule: createInvitation_cases)
    case (issue ev)
    from issueAndSend_replies [OF issue(2)] show ?thesis
      by (auto split: emailStatus.splits)
  qed simp_all
next
  assume a: "find (\<lambda>e. evt_id e = eid) (events db) \<noteq> None \<and> body_deliveryMethod body = EMAIL \<and>
    (\<not> truthy_str (body_email body) \<or> \<not> isEmailSendingEnabled (settingsRow db))"
  then obtain ev where "find (\<lambda>e. evt_id e = eid) (events db) = Some ev" by blast
  with a show "\<exists>m. createInvitation w db eid body adm = (Message 400 m, db)"
    by (auto simp: createInvitation_def)
next
  assume a: "createInvitation w db eid body adm = (Message 429 m, db')"
  from createInvitation_429 [OF a] show "invitations db' = invitations db" by auto
  from createInvitation_429 [OF a]
  show "\<exists>row. emailLogs db' = emailLogs db @ [row] \<and> log_status row = RATE_LIMITED" by auto
next
  show "\<exists>row. snd (sendInvitationEmail w db opts) = db\<lparr>emailLogs := emailLogs db @ [row]\<rparr> \<and>
          log_status row = status_of (fst (sendInvitationEmail w db opts))"
    using assms by (rule send_one_record)
next
  assume a: "createInvitation w db eid body adm = (Message 500 m, db')"
  then obtain ev where i: "issueAndSend w db ev eid body adm = (Message 500 m, db')"
    by (cases rule: createInvitation_cases) simp_all
  let ?send = "sendInvitationEmail w (issued w db eid body) (routeOptions w ev body adm)"
  obtain row where row: "snd ?send = (issued w db eid body)\<lparr>emailLogs := emailLogs (issued w db eid body) @ [row]\<rparr>"
    "log_status row = status_of (fst ?send)"
    using send_one_record [OF assms, of "issued w db eid body" "routeOptions w ev body adm"] by blast
  from issueAndSend_replies [OF i] have d: "db' = snd ?send" and f: "fst ?send = StatusError m"
    by (auto split: emailStatus.splits)
  from d row(1) show "invitations db' = invitations (issued w db eid body)" by simp
  from d f row show "\<exists>row. emailLogs db' = emailLogs (issued w db eid body) @ [row] \<and> log_status row = FAILED"
    by auto
next
  assume "createInvitation w db eid body adm = (Created i l, db') \<and> body_deliveryMethod body = EMAIL"
  then have a: "createInvitation w db eid body adm = (Created i l, db')" and e: "body_deliveryMethod body = EMAIL"
    by simp_all
  from a obtain ev where i: "issueAndSend w db ev eid body adm = (Created i l, db')"
    and t: "body_deliveryMethod body = EMAIL \<longrightarrow> truthy_str (body_email body)"
    by (cases rule: createInvitation_cases) simp_all
  let ?send = "sendInvitationEmail w (issued w db eid body) (routeOptions w ev body adm)"
  obtain row where row: "snd ?send = (issued w db eid body)\<lparr>emailLogs := emailLogs (issued w db eid body) @ [row]\<rparr>"
    "log_status row = status_of (fst ?send)"
    using send_one_record [OF assms, of "issued w db eid body" "routeOptions w ev body adm"] by blast
  from issueAndSend_replies [OF i] e t have d: "db' = snd ?send"
    and f: "fst ?send = StatusSent \<or> fst ?send = StatusDisabled"
    by (auto split: emailStatus.splits)
  have dis: "fst ?send = StatusDisabled \<longleftrightarrow> \<not> isEmailSendingEnabled (settingsRow (issued w db eid body))"
    using enabled_from [of "settingsRow (issued w db eid body)" "senderEmail ev"]
    unfolding sendInvitationEmail_def Let_def
    by (auto simp: routeOptions_def split: sendOutcome.splits)
  from d row(1) show "invitations db' = invitations (issued w db eid body)" by simp
  from f dis row(2) have "(log_status row = SENT \<or> log_status row = DISABLED) \<and>
     (log_status row = DISABLED \<longleftrightarrow> \<not> isEmailSendingEnabled (settingsRow (issued w db eid body)))"
    by auto
  with d row(1)
  show "\<exists>row. emailLogs db' = emailLogs (issued w db eid body) @ [row] \<and>
             (log_status row = SENT \<or> log_status row = DISABLED) \<and>
             (log_status row = DISABLED \<longleftrightarrow> \<not> isEmailSendingEnabled (settingsRow (issued w db eid body)))"
    by (intro exI [of _ row]) auto
next
  assume "createInvitation w db eid body adm = (Created i l, db') \<and> body_deliveryMethod body = LINK"
  then have a: "createInvitation w db eid body adm = (Created i l, db')" and e: "body_deliveryMethod body = LINK"
    by simp_all
  from a obtain ev where i: "issueAndSend w db ev eid body adm = (Created i l, db')"
    by (cases rule: createInvitation_cases) simp_all
  from issueAndSend_replies [OF i] e show "db' = issued w db eid body"
    by auto
qed


text \<open>When the insert of the audit row fails, the mail is delivered, the send step
  returns \<open>sent\<close>, the route answers 201, and the audit log stays empty: a run that reaches
  \<open>SENT\<close> without an audit record, against claim C3.\<close>

theorem dispatch_audit_trail_counterexample:
  "createInvitation ex_world_nolog ex_db ''e1'' ex_payload (Some ''adminA'') =
     (Created ex_new_invitation ''http://localhost:5173/join/5f2a9c'', ex_db_issued) \<and>
   issued ex_world_nolog ex_db ''e1'' ex_payload = ex_db_issued \<and>
   fst (sendInvitationEmail ex_world_nolog ex_db_issued
          (routeOptions ex_world_nolog ex_event ex_payload (Some ''adminA''))) = StatusSent \<and>
   emailLogs ex_db_issued = []"
proof (intro conjI)
  show "createInvitation ex_world_nolog ex_db ''e1'' ex_payload (Some ''adminA'') =
     (Created ex_new_invitation ''http://localhost:5173/join/5f2a9c'', ex_db_issued)"
    by (rule ex_run_nolog)
  show "issued ex_world_nolog ex_db ''e1'' ex_payload = ex_db_issued"
    by (simp add: issued_def ex_defs newInvitation_def)
  show "fst (sendInvitationEmail ex_world_nolog ex_db_issued
          (routeOptions ex_world_nolog ex_event ex_payload (Some ''adminA''))) = StatusSent"
    by (simp add: routeOptions_def joinLink_def ex_defs route_defs)
  show "emailLogs ex_db_issued = []"
    by (simp add: ex_defs)
qed

text \<open>A request without a recipient, a delivered mail, a plain link, a dispatch denied at
  the quota gate, and a refused mail.\<close>

theorem dispatch_audit_trail_witness:
  "auditWriteOk ex_world \<and>
   createInvitation ex_world ex_db ''e1'' ex_payload_noemail (Some ''adminA'') =
     (Message 400 ''Email is required for email invitations'', ex_db) \<and>
   createInvitation ex_world ex_db ''e1'' ex_payload (Some ''adminA'') =
     (Created ex_new_invitation ''http://localhost:5173/join/5f2a9c'',
      ex_db_issued\<lparr>emailLogs := emailLogs ex_db_issued @ [ex_sent_row]\<rparr>) \<and>
   body_deliveryMethod ex_payload = EMAIL \<and>
   invitations (ex_db_issued\<lparr>emailLogs := emailLogs ex_db_issued @ [ex_sent_row]\<rparr>)
     = invitations (issued ex_world ex_db ''e1'' ex_payload) \<and>
   createInvitation ex_world ex_db ''e1'' ex_payload_link (Some ''adminA'') =
     (Created ex_link_invitation ''http://localhost:5173/join/5f2a9c'',
      ex_db\<lparr>invitations := [ex_link_invitation]\<rparr>) \<and>
   body_deliveryMethod ex_payload_link = LINK \<and>
   ex_db\<lparr>invitations := [ex_link_invitation]\<rparr> = issued ex_world ex_db ''e1'' ex_payload_link \<and>
   createInvitation ex_world ex_db2 ''e1'' ex_payload (Some ''adminA'') =
     (Message 429 ''Limit erreicht (2 pro Stunde).'', ex_db2\<lparr>emailLogs := emailLogs ex_db2 @ [ex_denied_row]\<rparr>) \<and>
   invitations (ex_db2\<lparr>emailLogs := emailLogs ex_db2 @ [ex_denied_row]\<rparr>) = invitations ex_db2 \<and>
   auditWriteOk ex_world_refused \<and>
   createInvitation ex_world_refused ex_db ''e1'' ex_payload (Some ''adminA'') =
     (Message 500 ''connection refused'',
      ex_db_issued\<lparr>emailLogs := emailLogs ex_db_issued @
         [ex_sent_row\<lparr>log_status := FAILED, log_errorMessage := Some ''connection refused''\<rparr>]\<rparr>) \<and>
   invitations (ex_db_issued\<lparr>emailLogs := emailLogs ex_db_issued @
         [ex_sent_row\<lparr>log_status := FAILED, log_errorMessage := Some ''connection refused''\<rparr>]\<rparr>)
     = invitations (issued ex_world_refused ex_db ''e1'' ex_payload)"
proof -
  have w1: "auditWriteOk ex_world" and w2: "auditWriteOk ex_world_refused"
    by (simp_all add: ex_defs)
  have em: "body_deliveryMethod ex_payload = EMAIL"
    by (simp add: ex_payload_def)
  have lk: "body_deliveryMethod ex_payload_link = LINK"
    by (simp add: ex_payload_link_def)
  note a = dispatch_audit_trail [OF w1, where db = ex_db and eid = "''e1''" and body = ex_payload
      and adm = "Some ''adminA''" and i = ex_new_invitation and l = "''http://localhost:5173/join/5f2a9c''"
      and db' = "ex_db_issued\<lparr>emailLogs := emailLogs ex_db_issued @ [ex_sent_row]\<rparr>",
      THEN conjunct2, THEN conjunct2, THEN conjunct2, THEN conjunct2, THEN conjunct2, THEN conjunct1,
      THEN mp, OF conjI [OF ex_run_sent em], THEN conjunct1]
  note b = dispatch_audit_trail [OF w1, where db = ex_db2 and eid = "''e1''" and body = ex_payload
      and adm = "Some ''adminA''" and m = "''Limit erreicht (2 pro Stunde).''"
      and db' = "ex_db2\<lparr>emailLogs := emailLogs ex_db2 @ [ex_denied_row]\<rparr>",
      THEN conjunct2, THEN conjunct2, THEN conjunct1, THEN mp, OF ex_db2_denied, THEN conjunct1]
  note c = dispatch_audit_trail [OF w2, where db = ex_db and eid = "''e1''" and body = ex_payload
      and adm = "Some ''adminA''" and m = "''connection refused''"
      and db' = "ex_db_issued\<lparr>emailLogs := emailLogs ex_db_issued @
         [ex_sent_row\<lparr>log_status := FAILED, log_errorMessage := Some ''connection refused''\<rparr>]\<rparr>",
      THEN conjunct2, THEN conjunct2, THEN conjunct2, THEN conjunct2, THEN conjunct1,
      THEN mp, OF ex_run_refused, THEN conjunct1]
  note d = dispatch_audit_trail [OF w1, where db = ex_db and eid = "''e1''" and body = ex_payload_link
      and adm = "Some ''adminA''" and i = ex_link_invitation and l = "''http://localhost:5173/join/5f2a9c''"
      and db' = "ex_db\<lparr>invitations := [ex_link_invitation]\<rparr>",
      THEN conjunct2, THEN conjunct2, THEN conjunct2, THEN conjunct2, THEN conjunct2, THEN conjunct2,
      THEN mp, OF conjI [OF ex_run_link lk]]
  show ?thesis
    by (intro conjI) (rule w1, rule ex_run_noemail, rule ex_run_sent, rule em, rule a, rule ex_run_link,
        rule lk, rule d, rule ex_db2_denied, rule b, rule w2, rule ex_run_refused, rule c)
qed

section \<open>When the insert of an audit row fails\<close>

text \<open>The reply of the route does not depend on the audit insert once the quota gate
  has been passed; at the gate it does.\<close>

lemma issueAndSend_fst_audit_irrelevant:
  "fst (issueAndSend (w\<lparr>auditWriteOk := b\<rparr>) db ev eid body adm) = fst (issueAndSend w db ev eid body adm)"
proof -
  let ?w = "w\<lparr>auditWriteOk := b\<rparr>"
  let ?o = "\<lparr> opt_to = str_of (body_email body),
               opt_link = or_default (env_baseUrl (env w)) ''http://localhost:5173'' @ ''/join/'' @ randomToken w,
               opt_event = ev, opt_invitationId = Some (newInvitationId w), opt_adminId = adm,
               skipRateCheck = True \<rparr>"
  let ?db2 = "concurrent w (db\<lparr>invitations := invitations db @ [newInvitation w eid body]\<rparr>)"
  have n: "newInvitation ?w eid body = newInvitation w eid body"
    by (simp add: newInvitation_def)
  have f: "fst (sendInvitationEmail ?w ?db2 ?o) = fst (sendInvitationEmail w ?db2 ?o)"
    by (rule send_fst_audit_irrelevant)
  have nr: "\<And>m. fst (sendInvitationEmail w ?db2 ?o) \<noteq> StatusRateLimited m"
    by (rule send_skip_not_rate_limited) simp
  show ?thesis
    unfolding issueAndSend_def Let_def n
    using f nr
    by (cases "sendInvitationEmail ?w ?db2 ?o"; cases "sendInvitationEmail w ?db2 ?o")
       (auto simp add: newInvitation_def split: emailStatus.splits)
qed

lemma precheck_audit_irrelevant:
  "precheckRateLimit (w\<lparr>auditWriteOk := b\<rparr>) db adm = precheckRateLimit w db adm"
  by (simp add: precheckRateLimit_def)

lemma gate_denied_insert_fails:
  assumes "\<not> auditWriteOk w" and "gateDenies w db eid body adm"
  shows "createInvitation w db eid body adm = (Unhandled, db)"
proof -
  from assms(2) obtain ev where ev: "find (\<lambda>e. evt_id e = eid) (events db) = Some ev"
    unfolding gateDenies_def by blast
  from assms(2) have c: "body_deliveryMethod body = EMAIL" "truthy_str (body_email body)"
      "isEmailSendingEnabled (settingsRow db)" "truthy_str adm"
      "\<not> allowed (precheckRateLimit w db adm)"
    unfolding gateDenies_def by simp_all
  show ?thesis
    unfolding createInvitation_def Let_def ev
    using c assms(1) by simp
qed

lemma gate_passed_reply:
  assumes "\<not> gateDenies w db eid body adm"
  shows "fst (createInvitation (w\<lparr>auditWriteOk := b\<rparr>) db eid body adm) = fst (createInvitation w db eid body adm)"
proof (cases "find (\<lambda>e. evt_id e = eid) (events db)")
  case None
  then show ?thesis by (simp add: createInvitation_def)
next
  case (Some ev)
  let ?rate = "if body_deliveryMethod body = EMAIL \<and> truthy_str adm
               then precheckRateLimit w db adm else \<lparr>allowed = True, message = None\<rparr>"
  show ?thesis
  proof (cases "body_deliveryMethod body = EMAIL \<and> \<not> truthy_str (body_email body)")
    case True
    then show ?thesis unfolding createInvitation_def Let_def Some by simp
  next
    case a: False
    show ?thesis
    proof (cases "body_deliveryMethod body = EMAIL \<and> \<not> isEmailSendingEnabled (settingsRow db)")
      case True
      then show ?thesis using a unfolding createInvitation_def Let_def Some by simp
    next
      case b: False
      have al: "allowed ?rate"
        using assms a b Some unfolding gateDenies_def by auto
      have 1: "createInvitation w db eid body adm = issueAndSend w db ev eid body adm"
        unfolding createInvitation_def Let_def Some using a b al by auto
      have 2: "createInvitation (w\<lparr>auditWriteOk := v\<rparr>) db eid body adm
                 = issueAndSend (w\<lparr>auditWriteOk := v\<rparr>) db ev eid body adm" for v
        unfolding createInvitation_def Let_def Some precheck_audit_irrelevant using a b al by auto
      show ?thesis unfolding 1 2 by (rule issueAndSend_fst_audit_irrelevant)
    qed
  qed
qed

lemma ex_gate_nolog:
  "createInvitation ex_world_nolog ex_db2 ''e1'' ex_payload (Some ''adminA'') = (Unhandled, ex_db2)"
  by (simp add: ex_defs route_defs ex_db2_def)

lemma ex_gate_denies:
  "gateDenies ex_world_nolog ex_db2 ''e1'' ex_payload (Some ''adminA'')"
  by (simp add: gateDenies_def ex_defs route_defs ex_db2_def)

lemma ex_gate_passes:
  "\<not> gateDenies ex_world_nolog ex_db ''e1'' ex_payload (Some ''adminA'')"
  by (simp add: gateDenies_def ex_defs route_defs)

text \<open>
  Claim C10, as the spec states it: an audit-write failure never fails or aborts a
  dispatch. The operator has used up the hourly quota, so the gate of the route refuses
  the request and inserts the \<open>RATE_LIMITED\<close> row directly, outside \<open>logEmail\<close>: with a
  working insert the reply is 429 and the row is stored, with a failing insert the error
  is not caught, the request ends in the error handler and nothing is stored.
\<close>

theorem audit_failure_aborts_gate_counterexample:
  "\<not> auditWriteOk ex_world_nolog \<and>
   createInvitation ex_world_nolog ex_db2 ''e1'' ex_payload (Some ''adminA'') = (Unhandled, ex_db2) \<and>
   createInvitation (ex_world_nolog\<lparr>auditWriteOk := True\<rparr>) ex_db2 ''e1'' ex_payload (Some ''adminA'') =
     (Message 429 ''Limit erreicht (2 pro Stunde).'', ex_db2\<lparr>emailLogs := emailLogs ex_db2 @ [ex_denied_row]\<rparr>)"
proof -
  have e: "ex_world_nolog\<lparr>auditWriteOk := True\<rparr> = ex_world"
    by (simp add: ex_world_nolog_def ex_world_def)
  show ?thesis unfolding e using ex_gate_nolog ex_db2_denied by (simp add: ex_world_nolog_def ex_world_def)
qed

text \<open>
  Claim C10, as the code has it. When the insert of an audit row fails, \<open>logEmail\<close> leaves
  the store as it was and does not throw: \<open>sendInvitationEmail\<close> returns the same outcome
  as it does when the insert succeeds, and the store holds no record of the dispatch. A
  request to the invitation route that is not refused by the quota gate gets the reply it
  gets when the insert succeeds; a request that the gate refuses is aborted by the failing
  insert, with the store unchanged.
\<close>

theorem audit_failure_swallowed:
  assumes "\<not> auditWriteOk w"
  shows "logEmail w db row = db \<and>
         snd (sendInvitationEmail w db opts) = db \<and>
         fst (sendInvitationEmail w db opts) = fst (sendInvitationEmail (w\<lparr>auditWriteOk := True\<rparr>) db opts) \<and>
         (gateDenies w db eid body adm \<longrightarrow> createInvitation w db eid body adm = (Unhandled, db)) \<and>
         (\<not> gateDenies w db eid body adm \<longrightarrow>
            fst (createInvitation w db eid body adm)
              = fst (createInvitation (w\<lparr>auditWriteOk := True\<rparr>) db eid body adm))"
proof -
  have 1: "logEmail w db row = db" for row
    using assms by (simp add: logEmail_def)
  obtain r where "snd (sendInvitationEmail w db opts) = logEmail w db r"
    using send_result_cases [of w db opts] by blast
  with 1 have 2: "snd (sendInvitationEmail w db opts) = db" by simp
  have 3: "fst (sendInvitationEmail w db opts) = fst (sendInvitationEmail (w\<lparr>auditWriteOk := True\<rparr>) db opts)"
    by (simp add: send_fst_audit_irrelevant)
  have 4: "gateDenies w db eid body adm \<longrightarrow> createInvitation w db eid body adm = (Unhandled, db)"
    using gate_denied_insert_fails [OF assms] by blast
  have 5: "\<not> gateDenies w db eid body adm \<longrightarrow>
            fst (createInvitation w db eid body adm)
              = fst (createInvitation (w\<lparr>auditWriteOk := True\<rparr>) db eid body adm)"
    using gate_passed_reply [of w db eid body adm True] by simp
  from 1 2 3 4 5 show ?thesis by (intro conjI)
qed

text \<open>A delivered mail whose audit insert fails: the caller gets \<open>sent\<close> and the route
  replies 201, the store has no audit row; with the quota used up the request is
  aborted.\<close>

theorem audit_failure_swallowed_witness:
  "\<not> auditWriteOk ex_world_nolog \<and>
   sendInvitationEmail ex_world_nolog ex_db ex_options = (StatusSent, ex_db) \<and>
   gateDenies ex_world_nolog ex_db2 ''e1'' ex_payload (Some ''adminA'') \<and>
   createInvitation ex_world_nolog ex_db2 ''e1'' ex_payload (Some ''adminA'') = (Unhandled, ex_db2) \<and>
   \<not> gateDenies ex_world_nolog ex_db ''e1'' ex_payload (Some ''adminA'') \<and>
   fst (createInvitation (ex_world_nolog\<lparr>auditWriteOk := True\<rparr>) ex_db ''e1'' ex_payload (Some ''adminA''))
     = Created ex_new_invitation ''http://localhost:5173/join/5f2a9c''"
proof -
  have n: "\<not> auditWriteOk ex_world_nolog" by (simp add: ex_world_nolog_def)
  have e: "ex_world_nolog\<lparr>auditWriteOk := True\<rparr> = ex_world"
    by (simp add: ex_world_nolog_def ex_world_def)
  note t = audit_failure_swallowed [OF n, of ex_db "ex_log SENT 1" ex_options "''e1''" ex_payload "Some ''adminA''"]
  note u = audit_failure_swallowed [OF n, of ex_db2 "ex_log SENT 1" ex_options "''e1''" ex_payload "Some ''adminA''"]
  have s: "sendInvitationEmail ex_world_nolog ex_db ex_options = (StatusSent, ex_db)"
    using t ex_send_sent unfolding e by (simp add: prod_eq_iff ex_world_def)
  have c: "createInvitation ex_world_nolog ex_db2 ''e1'' ex_payload (Some ''adminA'') = (Unhandled, ex_db2)"
    using u ex_gate_denies by blast
  have p: "fst (createInvitation (ex_world_nolog\<lparr>auditWriteOk := True\<rparr>) ex_db ''e1'' ex_payload (Some ''adminA''))
     = Created ex_new_invitation ''http://localhost:5173/join/5f2a9c''"
    using t ex_gate_passes ex_run_nolog by simp
  from n s ex_gate_denies c ex_gate_passes p show ?thesis by (intro conjI)
qed


section \<open>Deleting an event: the route and the cleanup script\<close>

lemma apply_log_refs_result:
  assumes "apply_log_refs ra refs unref ls = Some ls'"
    and "\<And>l. log_eventId (unref l) = log_eventId l \<or> log_eventId (unref l) = None"
    and "\<And>l. log_invitationId (unref l) = log_invitationId l \<or> log_invitationId (unref l) = None"
    and "\<And>l. \<not> refs (unref l)"
  shows "(\<forall>l'\<in>set ls'. \<not> refs l') \<and>
         (\<forall>l'\<in>set ls'. \<exists>l\<in>set ls.
             (log_eventId l' = log_eventId l \<or> log_eventId l' = None) \<and>
             (log_invitationId l' = log_invitationId l \<or> log_invitationId l' = None))"
proof (cases ra)
  case Cascade
  with assms(1) have "ls' = filter (\<lambda>l. \<not> refs l) ls" by (simp add: apply_log_refs_def)
  then show ?thesis by auto
next
  case SetNull
  with assms(1) have ls': "ls' = map (\<lambda>l. if refs l then unref l else l) ls"
    by (simp add: apply_log_refs_def)
  have 1: "\<forall>l'\<in>set ls'. \<not> refs l'"
    unfolding ls' using assms(4) by auto
  have 2: "\<forall>l'\<in>set ls'. \<exists>l\<in>set ls.
             (log_eventId l' = log_eventId l \<or> log_eventId l' = None) \<and>
             (log_invitationId l' = log_invitationId l \<or> log_invitationId l' = None)"
  proof
    fix l'
    assume "l' \<in> set ls'"
    then obtain l where l: "l \<in> set ls" "l' = (if refs l then unref l else l)"
      unfolding ls' by auto
    show "\<exists>l\<in>set ls. (log_eventId l' = log_eventId l \<or> log_eventId l' = None) \<and>
             (log_invitationId l' = log_invitationId l \<or> log_invitationId l' = None)"
      using l assms(2) [of l] assms(3) [of l] by (intro bexI [of _ l]) auto
  qed
  from 1 2 show ?thesis by blast
next
  case Restrict
  with assms(1) have "ls' = ls" "\<not> list_ex refs ls"
    by (auto simp: apply_log_refs_def split: if_splits)
  then show ?thesis by (auto simp: list_ex_iff)
qed


lemma narrows_refl: "narrows db db"
  unfolding narrows_def by blast

lemma narrows_trans: "narrows a b \<Longrightarrow> narrows b c \<Longrightarrow> narrows a c"
  unfolding narrows_def
  apply (intro conjI)
    apply blast
   apply blast
  apply (metis (no_types, lifting))
  done

lemma stmt_narrows:
  assumes "stmt_effect ra st db = Some db'"
  shows "narrows db db'"
proof (cases st)
  case (EmailLogDeleteMany eid)
  with assms show ?thesis by (auto simp: narrows_def)
next
  case (CacheFindDeleteMany eid)
  with assms show ?thesis by (auto simp: narrows_def)
next
  case (InvitationDeleteMany eid)
  let ?gone = "map inv_id (filter (\<lambda>i. inv_eventId i = eid) (invitations db))"
  from assms InvitationDeleteMany obtain ls where
    ls: "apply_log_refs ra (\<lambda>l. case log_invitationId l of None \<Rightarrow> False | Some x \<Rightarrow> x \<in> set ?gone)
             (\<lambda>l. l\<lparr>log_invitationId := None\<rparr>) (emailLogs db) = Some ls"
    and db': "db' = db\<lparr>invitations := filter (\<lambda>i. inv_eventId i \<noteq> eid) (invitations db), emailLogs := ls\<rparr>"
    by (auto simp: Let_def split: option.splits)
  from apply_log_refs_result [OF ls] show ?thesis
    unfolding db' narrows_def by simp
next
  case (CacheDeleteMany eid)
  with assms show ?thesis by (auto simp: narrows_def)
next
  case (PlayerDeleteMany eid)
  with assms show ?thesis by (auto simp: narrows_def)
next
  case (EventDelete eid)
  from assms EventDelete obtain ls where
    ls: "apply_log_refs ra (\<lambda>l. log_eventId l = Some eid) (\<lambda>l. l\<lparr>log_eventId := None\<rparr>) (emailLogs db) = Some ls"
    and db': "db' = db\<lparr>events := filter (\<lambda>e. evt_id e \<noteq> eid) (events db), emailLogs := ls\<rparr>"
    by (auto split: option.splits if_splits)
  from apply_log_refs_result [OF ls] show ?thesis
    unfolding db' narrows_def by simp
qed

lemma transaction_Cons:
  "transaction w k (st # sts) db = Some db' \<longleftrightarrow>
     (\<exists>d. \<not> stmtFails w k \<and> stmt_effect (logRefAction w) st db = Some d \<and>
          transaction w (Suc k) sts d = Some db')"
  by (auto simp: exec_stmt_def split: option.splits)

lemma transaction_narrows:
  "transaction w k sts db = Some db' \<Longrightarrow> narrows db db'"
proof (induction sts arbitrary: k db)
  case Nil
  then show ?case by (simp add: narrows_refl)
next
  case (Cons st sts)
  then obtain d where "stmt_effect (logRefAction w) st db = Some d" "transaction w (Suc k) sts d = Some db'"
    unfolding transaction_Cons by blast
  then show ?case
    using stmt_narrows Cons.IH narrows_trans by blast
qed


lemma transaction_ConsE:
  assumes "transaction w k (st # sts) db = Some db'"
  obtains d where "stmt_effect (logRefAction w) st db = Some d" "transaction w (Suc k) sts d = Some db'"
  using assms unfolding transaction_Cons by blast

text \<open>The route deletes all or nothing: either the transaction fails and the store is as
  it was, or one state is committed, in which the event, its invitations, and every audit
  row that referred to the event or to one of its invitations are gone.\<close>

lemma deleteEvent_atomic:
  assumes "deleteEvent w db eid = (r, db', committed)"
  shows "r = Unhandled \<and> db' = db \<and> committed = [] \<or>
         r = NoContent \<and> committed = [db'] \<and>
           (\<forall>e\<in>set (events db'). evt_id e \<noteq> eid) \<and>
           (\<forall>i\<in>set (invitations db'). inv_eventId i \<noteq> eid) \<and>
           (\<forall>l\<in>set (emailLogs db'). log_eventId l \<noteq> Some eid) \<and>
           (\<forall>l\<in>set (emailLogs db'). \<forall>i\<in>set (invitations db).
               inv_eventId i = eid \<longrightarrow> log_invitationId l \<noteq> Some (inv_id i))"
proof (cases "transaction w 0 (deleteEventStmts eid) db")
  case None
  with assms show ?thesis by (simp add: deleteEvent_def)
next
  case (Some d6)
  with assms have r: "r = NoContent" "db' = d6" "committed = [d6]"
    by (auto simp: deleteEvent_def)
  let ?ra = "logRefAction w"
  from Some obtain d1 where
    s1: "stmt_effect ?ra (EmailLogDeleteMany eid) db = Some d1" and
    t1: "transaction w (Suc 0)
           [CacheFindDeleteMany eid, InvitationDeleteMany eid, CacheDeleteMany eid,
            PlayerDeleteMany eid, EventDelete eid] d1 = Some d6"
    unfolding deleteEventStmts_def by (rule transaction_ConsE)
  from t1 obtain d2 where
    s2: "stmt_effect ?ra (CacheFindDeleteMany eid) d1 = Some d2" and
    t2: "transaction w (Suc (Suc 0))
           [InvitationDeleteMany eid, CacheDeleteMany eid, PlayerDeleteMany eid, EventDelete eid] d2 = Some d6"
    by (rule transaction_ConsE)
  from t2 obtain d3 where
    s3: "stmt_effect ?ra (InvitationDeleteMany eid) d2 = Some d3" and
    t3: "transaction w (Suc (Suc (Suc 0))) [CacheDeleteMany eid, PlayerDeleteMany eid, EventDelete eid] d3 = Some d6"
    by (rule transaction_ConsE)
  from t3 obtain d4 where
    s4: "stmt_effect ?ra (CacheDeleteMany eid) d3 = Some d4" and
    t4: "transaction w (Suc (Suc (Suc (Suc 0)))) [PlayerDeleteMany eid, EventDelete eid] d4 = Some d6"
    by (rule transaction_ConsE)
  from t4 obtain d5 where
    s5: "stmt_effect ?ra (PlayerDeleteMany eid) d4 = Some d5" and
    t5: "transaction w (Suc (Suc (Suc (Suc (Suc 0))))) [EventDelete eid] d5 = Some d6"
    by (rule transaction_ConsE)
  from t5 obtain d6' where
    s6': "stmt_effect ?ra (EventDelete eid) d5 = Some d6'" and
    t6: "transaction w (Suc (Suc (Suc (Suc (Suc (Suc 0)))))) [] d6' = Some d6"
    by (rule transaction_ConsE)
  from t6 have "d6' = d6" by simp
  with s6' have s6: "stmt_effect ?ra (EventDelete eid) d5 = Some d6" by simp
  have n36: "narrows d3 d6"
    by (rule narrows_trans [OF stmt_narrows [OF s4] narrows_trans [OF stmt_narrows [OF s5] stmt_narrows [OF s6]]])
  have n16: "narrows d1 d6"
    by (rule narrows_trans [OF stmt_narrows [OF s2] narrows_trans [OF stmt_narrows [OF s3] n36]])
  \<comment> \<open>the event\<close>
  from s6 obtain ls6 where "d6 = d5\<lparr>events := filter (\<lambda>e. evt_id e \<noteq> eid) (events d5), emailLogs := ls6\<rparr>"
    by (auto split: option.splits if_splits)
  then have e: "\<forall>e\<in>set (events d6). evt_id e \<noteq> eid" by simp
  \<comment> \<open>the invitations\<close>
  from s3 obtain ls3 where
    ls3: "apply_log_refs ?ra (\<lambda>l. case log_invitationId l of None \<Rightarrow> False
              | Some x \<Rightarrow> x \<in> set (map inv_id (filter (\<lambda>i. inv_eventId i = eid) (invitations d2))))
             (\<lambda>l. l\<lparr>log_invitationId := None\<rparr>) (emailLogs d2) = Some ls3"
    and d3: "d3 = d2\<lparr>invitations := filter (\<lambda>i. inv_eventId i \<noteq> eid) (invitations d2), emailLogs := ls3\<rparr>"
    by (auto simp: Let_def split: option.splits)
  from d3 have "\<forall>i\<in>set (invitations d3). inv_eventId i \<noteq> eid" by simp
  with n36 have i: "\<forall>i\<in>set (invitations d6). inv_eventId i \<noteq> eid"
    unfolding narrows_def by blast
  \<comment> \<open>the audit rows of the event\<close>
  from s1 have "d1 = db\<lparr>emailLogs := filter (\<lambda>l. log_eventId l \<noteq> Some eid) (emailLogs db)\<rparr>"
    by simp
  then have l1: "\<forall>l\<in>set (emailLogs d1). log_eventId l \<noteq> Some eid" and i1: "invitations d1 = invitations db"
    by simp_all
  have le: "\<forall>l\<in>set (emailLogs d6). log_eventId l \<noteq> Some eid"
  proof
    fix l'
    assume "l' \<in> set (emailLogs d6)"
    with n16 obtain l where "l \<in> set (emailLogs d1)" "log_eventId l' = log_eventId l \<or> log_eventId l' = None"
      unfolding narrows_def by blast
    with l1 show "log_eventId l' \<noteq> Some eid" by auto
  qed
  \<comment> \<open>the audit rows of the invitations\<close>
  from s2 have i2: "invitations d2 = invitations d1" by auto
  have l3: "\<forall>l\<in>set (emailLogs d3). \<forall>i\<in>set (invitations db).
               inv_eventId i = eid \<longrightarrow> log_invitationId l \<noteq> Some (inv_id i)"
  proof (intro ballI impI)
    fix l i
    assume l: "l \<in> set (emailLogs d3)" and "i \<in> set (invitations db)" and "inv_eventId i = eid"
    then have g: "inv_id i \<in> set (map inv_id (filter (\<lambda>i. inv_eventId i = eid) (invitations d2)))"
      unfolding i2 i1 by auto
    from apply_log_refs_result [OF ls3] l
    have "\<not> (case log_invitationId l of None \<Rightarrow> False
              | Some x \<Rightarrow> x \<in> set (map inv_id (filter (\<lambda>i. inv_eventId i = eid) (invitations d2))))"
      unfolding d3 by simp
    with g show "log_invitationId l \<noteq> Some (inv_id i)"
      by (auto split: option.splits)
  qed
  have li: "\<forall>l\<in>set (emailLogs d6). \<forall>i\<in>set (invitations db).
               inv_eventId i = eid \<longrightarrow> log_invitationId l \<noteq> Some (inv_id i)"
  proof (intro ballI impI)
    fix l' i
    assume "l' \<in> set (emailLogs d6)" and i: "i \<in> set (invitations db)" "inv_eventId i = eid"
    with n36 obtain l where l: "l \<in> set (emailLogs d3)"
        "log_invitationId l' = log_invitationId l \<or> log_invitationId l' = None"
      unfolding narrows_def by blast
    from l3 l(1) i have "log_invitationId l \<noteq> Some (inv_id i)" by blast
    with l(2) show "log_invitationId l' \<noteq> Some (inv_id i)" by auto
  qed
  from e i le li show ?thesis unfolding r by simp
qed

lemmas delete_defs = run_def deleteEvent_def cleanupStmts_def deleteEventStmts_def exec_stmt_def
  apply_log_refs_def Let_def ex_db_old_def ex_db_partial_def ex_world_late_def ex_world_def
  ex_env_def ex_event_def ex_invitation_def ex_log_def ex_db_def

text \<open>
  Claim C5 on the retention cleanup. The script deletes an expired event with four
  statements that commit one by one and never deletes audit rows. When its third statement
  fails, the run stops with the finds and the invitation of the event deleted and the
  event, its cache and its audit record still there. When no statement fails, the audit
  record of the deleted event is still in the store if the schema clears the references;
  if the schema cascades, the states committed on the way are partially deleted; if it
  restricts, the run stops after the first statement. On the same store the route either
  changes nothing or deletes everything in one commit.
\<close>

theorem cleanup_not_atomic:
  "run (ex_world_late SetNull (\<lambda>k. k = 2)) ex_db_old =
     (False, ex_db_partial, [ex_db_old\<lparr>cacheFinds := []\<rparr>, ex_db_partial]) \<and>
   events ex_db_partial = [ex_event] \<and> invitations ex_db_partial = [] \<and>
   emailLogs ex_db_partial = [(ex_log SENT 9000000)\<lparr>log_invitationId := None\<rparr>] \<and>
   fst (snd (run (ex_world_late SetNull (\<lambda>k. False)) ex_db_old)) =
     ex_db\<lparr>events := [], players := players ex_db_old,
           emailLogs := [(ex_log SENT 9000000)\<lparr>log_eventId := None, log_invitationId := None\<rparr>]\<rparr> \<and>
   take 2 (snd (snd (run (ex_world_late Cascade (\<lambda>k. False)) ex_db_old))) =
     [ex_db_old\<lparr>cacheFinds := []\<rparr>, ex_db_old\<lparr>cacheFinds := [], invitations := [], emailLogs := []\<rparr>] \<and>
   run (ex_world_late Restrict (\<lambda>k. False)) ex_db_old =
     (False, ex_db_old\<lparr>cacheFinds := []\<rparr>, [ex_db_old\<lparr>cacheFinds := []\<rparr>]) \<and>
   deleteEvent (ex_world_late SetNull (\<lambda>k. k = 2)) ex_db_old ''e1'' = (Unhandled, ex_db_old, []) \<and>
   deleteEvent (ex_world_late SetNull (\<lambda>k. False)) ex_db_old ''e1'' =
     (NoContent, ex_db\<lparr>events := []\<rparr>, [ex_db\<lparr>events := []\<rparr>])"
proof (intro conjI)
  show "run (ex_world_late SetNull (\<lambda>k. k = 2)) ex_db_old =
     (False, ex_db_partial, [ex_db_old\<lparr>cacheFinds := []\<rparr>, ex_db_partial])"
    by (simp add: delete_defs)
  show "fst (snd (run (ex_world_late SetNull (\<lambda>k. False)) ex_db_old)) =
     ex_db\<lparr>events := [], players := players ex_db_old,
           emailLogs := [(ex_log SENT 9000000)\<lparr>log_eventId := None, log_invitationId := None\<rparr>]\<rparr>"
    by (simp add: delete_defs)
  show "take 2 (snd (snd (run (ex_world_late Cascade (\<lambda>k. False)) ex_db_old))) =
     [ex_db_old\<lparr>cacheFinds := []\<rparr>, ex_db_old\<lparr>cacheFinds := [], invitations := [], emailLogs := []\<rparr>]"
    by (simp add: delete_defs)
  show "run (ex_world_late Restrict (\<lambda>k. False)) ex_db_old =
     (False, ex_db_old\<lparr>cacheFinds := []\<rparr>, [ex_db_old\<lparr>cacheFinds := []\<rparr>])"
    by (simp add: delete_defs)
  show "deleteEvent (ex_world_late SetNull (\<lambda>k. k = 2)) ex_db_old ''e1'' = (Unhandled, ex_db_old, [])"
    by (simp add: delete_defs)
  show "deleteEvent (ex_world_late SetNull (\<lambda>k. False)) ex_db_old ''e1'' =
     (NoContent, ex_db\<lparr>events := []\<rparr>, [ex_db\<lparr>events := []\<rparr>])"
    by (simp add: delete_defs)
qed (simp_all add: delete_defs)

end
